theory Spec2Isabelle
  imports Complex_Main "HOL-Library.Sublist"
begin

section \<open>pytransact: a shallow embedding of the commit engine and its helpers\<close>

text \<open>
  The definitions below follow the Python sources of pytransact function by function.
  Exceptions are values of a sum type (\<open>Inl\<close> is the raised exception), mutated objects
  are passed in and returned, dictionaries are partial maps or association lists, and
  the document store is an explicit value.
\<close>

subsection \<open>Identifiers and instances (\<open>object/to.py\<close>)\<close>

text \<open>An ObjectId is opaque; only its identity matters, so it is a natural number.\<close>

type_synonym toid = nat

text \<open>
  The part of a TO instance that \<open>CommitContext.register\<close> reads: \<open>toi.id[0]\<close> and
  \<open>toi._deleted\<close>.
\<close>

record toi =
  toi_id :: toid
  toi_deleted :: bool

subsection \<open>\<open>CommitContext._clear\<close> and \<open>CommitContext.register\<close> (\<open>commit.py\<close>)\<close>

record commit_maps =
  deletedTois :: "toid \<rightharpoonup> toi"
  newTois :: "toid \<rightharpoonup> toi"
  changedTois :: "toid \<rightharpoonup> toi"
  mayChange :: bool

datatype register_error = ReadOnlyContext

text \<open>\<open>_clear\<close> empties the three dictionaries and resets \<open>_mayChange\<close>.\<close>

definition clear :: commit_maps where
  "clear = \<lparr>deletedTois = Map.empty, newTois = Map.empty, changedTois = Map.empty,
            mayChange = False\<rparr>"

definition setMayChange :: "commit_maps \<Rightarrow> bool \<Rightarrow> commit_maps" where
  "setMayChange ctx b = ctx\<lparr>mayChange := b\<rparr>"

text \<open>
  \<^verbatim>\<open>
  def register(self, toi):
      if not self._mayChange:
          raise cRuntimeError('Tried to change Toi in a read only context.')
      toid = toi.id[0]
      if toi._deleted:
          if toid in self.deletedTois:
              return
          if toid in self.newTois:
              del self.newTois[toid]
          else:
              if toid in self.changedTois:
                  del self.changedTois[toid]
              self.deletedTois[toid] = toi
      elif toid not in self.newTois and toid not in self.changedTois:
          self.changedTois[toid] = toi
  \<close>
\<close>

definition register :: "commit_maps \<Rightarrow> toi \<Rightarrow> register_error + commit_maps" where
  "register ctx t =
     (if \<not> mayChange ctx then Inl ReadOnlyContext
      else let toid = toi_id t in
        if toi_deleted t then
          (if deletedTois ctx toid \<noteq> None then Inr ctx
           else if newTois ctx toid \<noteq> None
             then Inr (ctx\<lparr>newTois := (newTois ctx)(toid := None)\<rparr>)
           else Inr (ctx\<lparr>changedTois :=
                            (if changedTois ctx toid \<noteq> None
                             then (changedTois ctx)(toid := None) else changedTois ctx),
                          deletedTois := (deletedTois ctx)(toid \<mapsto> t)\<rparr>))
        else if newTois ctx toid = None \<and> changedTois ctx toid = None
          then Inr (ctx\<lparr>changedTois := (changedTois ctx)(toid \<mapsto> t)\<rparr>)
        else Inr ctx)"

text \<open>The three key sets have no identifier in common.\<close>

definition maps_disjoint :: "commit_maps \<Rightarrow> bool" where
  "maps_disjoint ctx \<longleftrightarrow>
     dom (newTois ctx) \<inter> dom (changedTois ctx) = {} \<and>
     dom (newTois ctx) \<inter> dom (deletedTois ctx) = {} \<and>
     dom (changedTois ctx) \<inter> dom (deletedTois ctx) = {}"

text \<open>A run of register calls from a given context; the first exception ends it.\<close>

fun register_all :: "commit_maps \<Rightarrow> toi list \<Rightarrow> register_error + commit_maps" where
  "register_all ctx [] = Inr ctx"
| "register_all ctx (t # ts) =
     (case register ctx t of Inl e \<Rightarrow> Inl e | Inr ctx' \<Rightarrow> register_all ctx' ts)"

subsection \<open>The retry decorator of the storage adapter (\<open>mongo.py\<close>)\<close>

text \<open>
  Exceptions a wrapped storage call or the wrapper itself can raise.
  \<open>AutoReconnect\<close> stands for \<open>pymongo.errors.AutoReconnect\<close> and its subclasses (the
  transient reconnect errors), \<open>OtherError\<close> for any exception that is not one, and
  \<open>UnboundLocalError\<close> is Python's own error for reading a local name that has no value.
\<close>

datatype storage_exn = AutoReconnect string | OtherError string | UnboundLocalError string

fun is_AutoReconnect :: "storage_exn \<Rightarrow> bool" where
  "is_AutoReconnect (AutoReconnect _) = True"
| "is_AutoReconnect _ = False"

text \<open>
  \<^verbatim>\<open>
  def retry(func):
      @functools.wraps(func)
      def retry(*args, **kw):
          for wait in (0.0, 0.1, 0.5, 1, 2, 5, 5, 5, 5):
              try:
                  return func(*args, **kw)
              except pymongo.errors.AutoReconnect as exc:
                  log.error('AutoReconnect cought, retrying.')
                  time.sleep(wait)
          raise exc
      return retry
  \<close>
  The sources are Python 3 (\<open>class TO(object, metaclass=mTO)\<close>). There the target of
  \<open>except ... as exc\<close> is deleted when the except clause is left, so the local name
  \<open>exc\<close> is bound only inside the clause. The model keeps the binding of \<open>exc\<close> as an
  option: \<open>Some e\<close> inside the clause, \<open>None\<close> once it is left.

  The wrapped call talks to the database, so its successive calls may behave
  differently: \<open>func n\<close> is the outcome of the call number \<open>n\<close> (from 0). The result is
  what the wrapper returns or raises, the list of sleeps in seconds in the order they
  were taken, and the number of calls made.
\<close>

definition waits :: "rat list" where
  "waits = [0, 1 / 10, 1 / 2, 1, 2, 5, 5, 5, 5]"

record 'a retry_run =
  outcome :: "storage_exn + 'a"
  slept :: "rat list"
  calls :: nat

fun retry_loop ::
  "(nat \<Rightarrow> storage_exn + 'a) \<Rightarrow> rat list \<Rightarrow> nat \<Rightarrow> storage_exn option \<Rightarrow> rat list \<Rightarrow> 'a retry_run"
where
  "retry_loop func [] n exc sl =
     \<lparr>outcome = (case exc of
                    Some e \<Rightarrow> Inl e
                  | None \<Rightarrow> Inl (UnboundLocalError ''exc'')),
      slept = sl, calls = n\<rparr>"
| "retry_loop func (wait # ws) n exc sl =
     (case func n of
        Inr v \<Rightarrow> \<lparr>outcome = Inr v, slept = sl, calls = Suc n\<rparr>
      | Inl e \<Rightarrow>
          if is_AutoReconnect e then
            (let exc_in_clause = Some e;
                 sl' = sl @ [wait];
                 exc_after_clause = None
             in retry_loop func ws (Suc n) exc_after_clause sl')
          else \<lparr>outcome = Inl e, slept = sl, calls = Suc n\<rparr>)"

text \<open>A call outcome that the except clause catches.\<close>

definition transient :: "storage_exn + 'a \<Rightarrow> bool" where
  "transient r = (case r of Inl e \<Rightarrow> is_AutoReconnect e | Inr _ \<Rightarrow> False)"

definition retry :: "(nat \<Rightarrow> storage_exn + 'a) \<Rightarrow> 'a retry_run" where
  "retry func = retry_loop func waits 0 None []"

subsection \<open>Coercion of the int attribute kind (\<open>object/attribute.py\<close>)\<close>

text \<open>
  The numeric values \<open>Int.coerceValue\<close> can be handed, and \<open>None\<close>. A finite Python
  float is a rational number, and \<open>PyFloat\<close> carries that exact value; the non-finite
  floats are separate constructors.
\<close>

datatype pyval = PyInt int | PyBool bool | PyFloat rat | PyInf | PyNegInf | PyNaN | PyNone

datatype py_exn = TypeError | ValueError | OverflowError

datatype value_error = IntValueError pyval

text \<open>
  Python's \<open>int(val)\<close> on these values: an int is returned as it is, a bool is 0 or 1,
  a finite float is truncated towards zero, an infinity raises OverflowError, a NaN
  raises ValueError, and \<open>None\<close> raises TypeError.
\<close>

definition trunc_toward_zero :: "rat \<Rightarrow> int" where
  "trunc_toward_zero x = (if 0 \<le> x then \<lfloor>x\<rfloor> else \<lceil>x\<rceil>)"

fun py_int :: "pyval \<Rightarrow> py_exn + int" where
  "py_int (PyInt i) = Inr i"
| "py_int (PyBool b) = Inr (if b then 1 else 0)"
| "py_int (PyFloat x) = Inr (trunc_toward_zero x)"
| "py_int PyInf = Inl OverflowError"
| "py_int PyNegInf = Inl OverflowError"
| "py_int PyNaN = Inl ValueError"
| "py_int PyNone = Inl TypeError"

text \<open>
  \<^verbatim>\<open>
  @classmethod
  def coerceValue(cls, val):
      try:
          return int(val) # long()?
      except:
          raise exceptions.IntValueError(val)
  \<close>
\<close>

definition Int_coerceValue :: "pyval \<Rightarrow> value_error + int" where
  "Int_coerceValue val = (case py_int val of Inr i \<Rightarrow> Inr i | Inl _ \<Rightarrow> Inl (IntValueError val))"

subsection \<open>Commit records, conflict replay and the commit queue (\<open>commit.py\<close>)\<close>

text \<open>
  A \<open>Commit\<close> object. \<open>'op\<close> is the type of the operations, \<open>'r\<close> of the results,
  \<open>'d\<close> of the staged instance data (newTois, changedTois, deletedTois, blob values,
  index data) and \<open>'e\<close> of the error a client is shown.
\<close>

type_synonym oid = nat

datatype commit_state = StateNew | StateDone | StateFailed

datatype 'e commit_error = ClientErr 'e | BlError string

record ('op, 'r, 'd, 'e) commit =
  c_id :: oid
  c_user :: "oid option"
  c_interested :: "oid option"
  c_handled_by :: "oid option"
  c_error :: "'e commit_error option"
  c_state :: commit_state
  c_generation :: nat
  c_operations :: "'op list"
  c_results :: "'r list"
  c_staged :: "'d option"
  c_traceback :: bool

text \<open>
  The database as far as the commit queue goes: the \<open>commits\<close> collection in its
  natural order, the instance collection as an opaque value, and the next unused
  ObjectId.
\<close>

record ('op, 'r, 'd, 'e, 't) database =
  commits :: "('op, 'r, 'd, 'e) commit list"
  tois :: 't
  next_oid :: oid

datatype 'x commit_exn =
  Timeout string | CommitConflict | ToisLocked | DuplicateKeyError | OtherException 'x

text \<open>What running the operation list in a commit context comes to.\<close>

datatype ('r, 'd, 'e, 'x) ops_outcome =
    OpsClientError 'e
  | OpsRaised 'x
  | OpsOk "'r list" 'd

text \<open>
  \<open>Commit.__init__\<close> and \<open>CommitContext.createCommit\<close>: the new commit is handled by
  the creating context; with an error only the error is recorded, otherwise the
  results and the staged data of the context.
\<close>

definition createCommit ::
  "oid \<Rightarrow> oid \<Rightarrow> oid option \<Rightarrow> 'op list \<Rightarrow> 'r list \<Rightarrow> 'd option \<Rightarrow> 'e option \<Rightarrow> oid option \<Rightarrow> nat
   \<Rightarrow> ('op, 'r, 'd, 'e) commit"
where
  "createCommit ctx_id commitId user operations results staged error interested generation =
     (let commit = \<lparr>c_id = commitId, c_user = user, c_interested = interested,
                     c_handled_by = Some ctx_id, c_error = None, c_state = StateNew,
                     c_generation = generation, c_operations = operations,
                     c_results = [], c_staged = None, c_traceback = False\<rparr>
      in if error \<noteq> None then commit\<lparr>c_error := map_option ClientErr error\<rparr>
         else commit\<lparr>c_staged := staged, c_results := results\<rparr>)"

text \<open>
  \<open>CommitContext.runCommit\<close> with \<open>processCommits=False\<close>. A ClientError from an
  operation gives an error commit, created without the \<open>generation\<close> argument (so with
  its default 0); any other exception propagates.
  \<^verbatim>\<open>
  try:
      for op in operations:
          op.checkPermissions(self)
          val = op.operate(self)
          results.append(cleanValue(val))
  except ClientError as error:
      error = error.args[0]
      commit = self.createCommit(operations, [], error=error, interested=interested)
  else:
      ... relation and blob updates ...
      commit = self.createCommit(operations, results, interested=interested,
                                 generation=generation)
  if processCommits:
      self.processCommits(commit)
  return commit
  \<close>
\<close>

definition runCommit ::
  "('r, 'd, 'e, 'x) ops_outcome \<Rightarrow> oid \<Rightarrow> oid \<Rightarrow> oid option \<Rightarrow> 'op list \<Rightarrow> oid option \<Rightarrow> nat
   \<Rightarrow> 'x commit_exn + ('op, 'r, 'd, 'e) commit"
where
  "runCommit ops_result ctx_id commitId user operations interested generation =
     (case ops_result of
        OpsClientError error \<Rightarrow>
          Inr (createCommit ctx_id commitId user operations [] None (Some error)
                 interested 0)
      | OpsRaised x \<Rightarrow> Inl (OtherException x)
      | OpsOk results staged \<Rightarrow>
          Inr (createCommit ctx_id commitId user operations results (Some staged) None
                 interested generation))"

text \<open>\<open>Commit.delete\<close>: \<open>mongo.remove(database.commits, {'_id': self._id})\<close>.\<close>

definition delete :: "('op, 'r, 'd, 'e, 't) database \<Rightarrow> ('op, 'r, 'd, 'e) commit \<Rightarrow> ('op, 'r, 'd, 'e, 't) database" where
  "delete db commit = db\<lparr>commits := filter (\<lambda>d. c_id d \<noteq> c_id commit) (commits db)\<rparr>"

text \<open>
  \<^verbatim>\<open>
  def rerunCommit(self, commit):
      if commit.generation > 5:
          raise Timeout('Generation count too large.')
      generation = commit.generation + 1
      ops = commit.operations
      user = commit.user
      interested = commit.interested
      commit.delete(self.database)
      with CommitContext(self.database, user) as ctx:
          return ctx.runCommit(ops, interested=interested, processCommits=False,
                               generation=generation)
  \<close>
  The new context and the new commit take the next two unused ObjectIds. \<open>run_ops\<close> is
  what the operations do when they are run in a new context of the given id against
  the given database.
\<close>

definition rerunCommit ::
  "(('op, 'r, 'd, 'e, 't) database \<Rightarrow> oid \<Rightarrow> oid option \<Rightarrow> 'op list \<Rightarrow> ('r, 'd, 'e, 'x) ops_outcome)
   \<Rightarrow> ('op, 'r, 'd, 'e, 't) database \<Rightarrow> ('op, 'r, 'd, 'e) commit
   \<Rightarrow> ('x commit_exn + ('op, 'r, 'd, 'e) commit) \<times> ('op, 'r, 'd, 'e, 't) database"
where
  "rerunCommit run_ops db commit =
     (if c_generation commit > 5 then (Inl (Timeout ''Generation count too large.''), db)
      else
        let generation = c_generation commit + 1;
            ops = c_operations commit;
            user = c_user commit;
            interested = c_interested commit;
            db1 = delete db commit;
            ctx_id = next_oid db1;
            commitId = next_oid db1 + 1;
            db2 = db1\<lparr>next_oid := next_oid db1 + 2\<rparr>
        in (runCommit (run_ops db2 ctx_id user ops) ctx_id commitId user ops
              interested generation, db2))"

text \<open>
  \<open>Commit.unhandle_handled\<close>: \<open>update_one\<close> unsets \<open>handled_by\<close> on the first document with
  the given id that the given handler handles.
\<close>

fun unset_handled_first ::
  "oid \<Rightarrow> oid \<Rightarrow> ('op, 'r, 'd, 'e) commit list \<Rightarrow> ('op, 'r, 'd, 'e) commit list" where
  "unset_handled_first i h [] = []"
| "unset_handled_first i h (d # ds) =
     (if c_id d = i \<and> c_handled_by d = Some h then d\<lparr>c_handled_by := None\<rparr> # ds
      else d # unset_handled_first i h ds)"

definition unhandle_handled ::
  "('op, 'r, 'd, 'e, 't) database \<Rightarrow> oid \<Rightarrow> oid \<Rightarrow> ('op, 'r, 'd, 'e, 't) database" where
  "unhandle_handled db i handler = db\<lparr>commits := unset_handled_first i handler (commits db)\<rparr>"

text \<open>\<open>replace_one(spec, doc, upsert=True)\<close>: the first match is replaced, if there is one.\<close>

fun replace_first :: "('a \<Rightarrow> bool) \<Rightarrow> 'a \<Rightarrow> 'a list \<Rightarrow> 'a list option" where
  "replace_first P doc [] = None"
| "replace_first P doc (d # ds) =
     (if P d then Some (doc # ds) else map_option ((#) d) (replace_first P doc ds))"

text \<open>\<open>Commit.save\<close>: replace the document with this id, or insert it.\<close>

definition save :: "('op, 'r, 'd, 'e, 't) database \<Rightarrow> ('op, 'r, 'd, 'e) commit \<Rightarrow> ('op, 'r, 'd, 'e, 't) database" where
  "save db commit =
     (case replace_first (\<lambda>d. c_id d = c_id commit) commit (commits db) of
        Some cs \<Rightarrow> db\<lparr>commits := cs\<rparr>
      | None \<Rightarrow> db\<lparr>commits := commits db @ [commit]\<rparr>)"

text \<open>
  \<open>Commit.unhandle\<close>: the commit loses its handler and replaces the document with its
  id that the handler handles. Without such a document the upsert inserts one, which
  the unique index on \<open>_id\<close> refuses when the id is already there.
\<close>

definition unhandle ::
  "('op, 'r, 'd, 'e, 't) database \<Rightarrow> ('op, 'r, 'd, 'e) commit \<Rightarrow> oid
   \<Rightarrow> 'x commit_exn + ('op, 'r, 'd, 'e, 't) database" where
  "unhandle db commit handler =
     (let doc = commit\<lparr>c_handled_by := None\<rparr> in
      case replace_first (\<lambda>d. c_id d = c_id commit \<and> c_handled_by d = Some handler) doc (commits db) of
        Some cs \<Rightarrow> Inr (db\<lparr>commits := cs\<rparr>)
      | None \<Rightarrow>
          if list_ex (\<lambda>d. c_id d = c_id commit) (commits db) then Inl DuplicateKeyError
          else Inr (db\<lparr>commits := commits db @ [doc]\<rparr>))"

definition pending :: "('op, 'r, 'd, 'e) commit \<Rightarrow> bool" where
  "pending d \<longleftrightarrow> c_state d \<noteq> StateDone \<and> c_state d \<noteq> StateFailed"

text \<open>\<open>Commit.handlers_running\<close>: is some pending commit handled by anyone?\<close>

definition handlers_running :: "('op, 'r, 'd, 'e, 't) database \<Rightarrow> bool" where
  "handlers_running db = list_ex (\<lambda>d. pending d \<and> c_handled_by d \<noteq> None) (commits db)"

text \<open>
  \<open>Commit.handle\<close>: \<open>find_and_modify\<close> takes the first pending commit that nobody handles
  and marks it as handled by the caller.
\<close>

fun handle_first ::
  "oid \<Rightarrow> ('op, 'r, 'd, 'e) commit list \<Rightarrow> ('op, 'r, 'd, 'e) commit option \<times> ('op, 'r, 'd, 'e) commit list"
where
  "handle_first h [] = (None, [])"
| "handle_first h (d # ds) =
     (if c_handled_by d = None \<and> pending d
      then (Some (d\<lparr>c_handled_by := Some h\<rparr>), d\<lparr>c_handled_by := Some h\<rparr> # ds)
      else (case handle_first h ds of (r, ds') \<Rightarrow> (r, d # ds')))"

text \<open>
  The state of the loop in \<open>processCommits\<close>: the database, the commit being processed
  (the loop variable \<open>commit\<close>), the list \<open>successful\<close> and the counters \<open>lockedCommits\<close>.
\<close>

record ('op, 'r, 'd, 'e, 't) loop_state =
  ls_db :: "('op, 'r, 'd, 'e, 't) database"
  ls_commit :: "('op, 'r, 'd, 'e) commit option"
  ls_successful :: "('op, 'r, 'd, 'e) commit list"
  ls_locked :: "oid \<Rightarrow> nat"

text \<open>How \<open>self.commit(commit)\<close>, the attempt to persist one commit, ends.\<close>

datatype 'x attempt_outcome = Committed | RaisedConflict | RaisedLocked | RaisedOther 'x

datatype ('s, 'x) flow = Next 's | Break 's | Raise "'x commit_exn" 's

definition handle ::
  "oid \<Rightarrow> ('op, 'r, 'd, 'e, 't) loop_state \<Rightarrow> ('op, 'r, 'd, 'e, 't) loop_state" where
  "handle self st =
     (case handle_first self (commits (ls_db st)) of
        (c, cs) \<Rightarrow> st\<lparr>ls_db := (ls_db st)\<lparr>commits := cs\<rparr>, ls_commit := c\<rparr>)"

text \<open>
  One pass through the body of the while loop of \<open>processCommits\<close>, for the commit
  \<open>commit\<close>. \<open>attempt\<close> is \<open>self.commit\<close>: what the attempt to persist does to the
  database and how it ends. The \<open>finally\<close> clause (\<open>unhandle_handled\<close> with the id the
  pass started with) runs on every way out; the \<open>continue\<close> after a replay skips
  \<open>commit = commit.handle(...)\<close>.
  \<^verbatim>\<open>
  while commit:
      try:
          commitId = commit._id
          self.commit(commit)
      except ToisLocked as exc:
          commit.unhandle(self.database, self.id)
          lockedCommits[commitId] += 1
          if lockedCommits[commitId] > 3:
              raise Timeout('Failed to lock TOIs for commit too many times: %s', commitId)
          if commit.handlers_running(self.database):
              break
      except CommitConflict as exc:
          commit = self.rerunCommit(commit)
          continue
      except Exception as exc:
          commit.state = 'failed'
          commit.traceback = traceback.format_exc()
          commit.error = BlError('commit failure')
          commit.save(self.database)
      else:
          successful.append(commit)
      finally:
          commit.unhandle_handled(self.database, commitId, self.id)
      commit = commit.handle(self.database, self.id)
  self.notifyChanges(successful)
  \<close>
\<close>

definition processCommits_body ::
  "oid
   \<Rightarrow> (('op, 'r, 'd, 'e, 't) database \<Rightarrow> ('op, 'r, 'd, 'e) commit
        \<Rightarrow> 'x attempt_outcome \<times> ('op, 'r, 'd, 'e, 't) database)
   \<Rightarrow> (('op, 'r, 'd, 'e, 't) database \<Rightarrow> oid \<Rightarrow> oid option \<Rightarrow> 'op list \<Rightarrow> ('r, 'd, 'e, 'x) ops_outcome)
   \<Rightarrow> ('op, 'r, 'd, 'e, 't) loop_state \<Rightarrow> ('op, 'r, 'd, 'e) commit
   \<Rightarrow> (('op, 'r, 'd, 'e, 't) loop_state, 'x) flow"
where
  "processCommits_body self attempt run_ops st commit =
     (let commitId = c_id commit in
      case attempt (ls_db st) commit of
        (RaisedLocked, db1) \<Rightarrow>
          (case unhandle db1 commit self of
             Inl x \<Rightarrow> Raise x (st\<lparr>ls_db := unhandle_handled db1 commitId self\<rparr>)
           | Inr db2 \<Rightarrow>
               let locked = (ls_locked st)(commitId := ls_locked st commitId + 1);
                   st1 = st\<lparr>ls_locked := locked, ls_db := unhandle_handled db2 commitId self\<rparr>
               in if locked commitId > 3
                  then Raise (Timeout ''Failed to lock TOIs for commit too many times'') st1
                  else if handlers_running db2 then Break st1
                  else Next (handle self st1))
      | (RaisedConflict, db1) \<Rightarrow>
          (case rerunCommit run_ops db1 commit of
             (Inl x, db2) \<Rightarrow> Raise x (st\<lparr>ls_db := unhandle_handled db2 commitId self\<rparr>)
           | (Inr commit', db2) \<Rightarrow>
               Next (st\<lparr>ls_db := unhandle_handled db2 commitId self, ls_commit := Some commit'\<rparr>))
      | (RaisedOther x, db1) \<Rightarrow>
          (let failed = commit\<lparr>c_state := StateFailed, c_traceback := True,
                               c_error := Some (BlError ''commit failure'')\<rparr>;
               db2 = save db1 failed
           in Next (handle self (st\<lparr>ls_db := unhandle_handled db2 commitId self\<rparr>)))
      | (Committed, db1) \<Rightarrow>
          Next (handle self (st\<lparr>ls_successful := ls_successful st @ [commit],
                                 ls_db := unhandle_handled db1 commitId self\<rparr>)))"

text \<open>
  The while loop. Another worker may keep the queue filled, so the loop need not end:
  it is run with fuel, and \<open>None\<close> means that the fuel ran out. \<open>Inr\<close> is the state in
  which \<open>notifyChanges(successful)\<close> is reached, \<open>Inl\<close> an exception that leaves
  \<open>processCommits\<close>.
\<close>

fun processCommits_loop ::
  "nat \<Rightarrow> oid
   \<Rightarrow> (('op, 'r, 'd, 'e, 't) database \<Rightarrow> ('op, 'r, 'd, 'e) commit
        \<Rightarrow> 'x attempt_outcome \<times> ('op, 'r, 'd, 'e, 't) database)
   \<Rightarrow> (('op, 'r, 'd, 'e, 't) database \<Rightarrow> oid \<Rightarrow> oid option \<Rightarrow> 'op list \<Rightarrow> ('r, 'd, 'e, 'x) ops_outcome)
   \<Rightarrow> ('op, 'r, 'd, 'e, 't) loop_state
   \<Rightarrow> (('x commit_exn \<times> ('op, 'r, 'd, 'e, 't) loop_state) + ('op, 'r, 'd, 'e, 't) loop_state) option"
where
  "processCommits_loop 0 self attempt run_ops st = None"
| "processCommits_loop (Suc fuel) self attempt run_ops st =
     (case ls_commit st of
        None \<Rightarrow> Some (Inr st)
      | Some commit \<Rightarrow>
          (case processCommits_body self attempt run_ops st commit of
             Next st' \<Rightarrow> processCommits_loop fuel self attempt run_ops st'
           | Break st' \<Rightarrow> Some (Inr st')
           | Raise x st' \<Rightarrow> Some (Inl (x, st'))))"

subsection \<open>The start of \<open>CreateToi.operate\<close> (\<open>commit.py\<close>)\<close>

text \<open>
  The properties of \<open>object/property.py\<close> and the part of an attribute descriptor that
  \<open>CreateToi.operate\<close> reads before it creates the instance: the name, whether the
  attribute is computed, its pre-properties (\<open>getprop(ReadOnly, pre=True)\<close> searches
  them), its default, and two functions of the attribute kind that can raise: turning
  the supplied value into a coerced value list (for a reference attribute this includes
  \<open>restToc._create\<close> of every id) and the pre-validation of
  \<open>context.validateAttrValues(None, attr, value, pre=True)\<close>.
\<close>

datatype property =
  Parent | MessageID | Presentation | ReorderOnly | ReadOnly | Unchangeable | Unique | Weak

datatype create_error =
    KeyError string
  | cRuntimeError string
  | CoercionError string
  | cAttrErrorList "create_error list"

record 'v attribute =
  a_name :: string
  a_computed :: bool
  a_preProperties :: "property list"
  a_default :: "'v list"
  a_coerceValueList :: "'v list \<Rightarrow> create_error + 'v list"
  a_prevalidate :: "'v list \<Rightarrow> create_error + 'v list"

definition getprop_pre :: "'v attribute \<Rightarrow> property \<Rightarrow> bool" where
  "getprop_pre attr p \<longleftrightarrow> p \<in> set (a_preProperties attr)"

text \<open>
  Dictionaries that are iterated (\<open>toc._attributes\<close>, \<open>self.attrData\<close>) are association
  lists in insertion order with one entry per key.
\<close>

definition dict_get :: "('k \<times> 'a) list \<Rightarrow> 'k \<Rightarrow> 'a option" where
  "dict_get d k = map_of d k"

definition dict_del :: "'k \<Rightarrow> ('k \<times> 'a) list \<Rightarrow> ('k \<times> 'a) list" where
  "dict_del k d = filter (\<lambda>kv. fst kv \<noteq> k) d"

fun dict_set :: "'k \<Rightarrow> 'a \<Rightarrow> ('k \<times> 'a) list \<Rightarrow> ('k \<times> 'a) list" where
  "dict_set k v [] = [(k, v)]"
| "dict_set k v (kv # d) = (if fst kv = k then (k, v) # d else kv # dict_set k v d)"

text \<open>Python's truth value of \<open>d.get(k)\<close> for list values: present and not empty.\<close>

definition dict_truthy :: "('k \<times> 'a list) list \<Rightarrow> 'k \<Rightarrow> bool" where
  "dict_truthy d k = (case dict_get d k of None \<Rightarrow> False | Some v \<Rightarrow> v \<noteq> [])"

text \<open>
  The first loop, over a snapshot of the supplied items.
  \<^verbatim>\<open>
  for attrName, value in list(self.attrData.items()):
      attr = toc._attributes[attrName]
      if attr.computed or attr.getprop(pytransact.object.property.ReadOnly, pre=True):
          # xxx why should we accept data just because it's empty? remove the if statement
          # and always raise
          if self.attrData.get(attr.name):
              # Access denied, read only attribute
              raise cRuntimeError("Tried to access the read only "
                                  "attribute '%(name)s'." % {'name': attr._xlatKey,})
          del self.attrData[attr.name]
          continue
      ... (reference attributes: value = [restToc._create(toid) for toid in value])
      self.attrData[attrName] = attr.coerceValueList(value)
  \<close>
\<close>

fun supplied_loop ::
  "(string \<times> 'v attribute) list \<Rightarrow> (string \<times> 'v list) list \<Rightarrow> (string \<times> 'v list) list
   \<Rightarrow> create_error + (string \<times> 'v list) list"
where
  "supplied_loop attributes [] attrData = Inr attrData"
| "supplied_loop attributes ((attrName, val) # items) attrData =
     (case dict_get attributes attrName of
        None \<Rightarrow> Inl (KeyError attrName)
      | Some attr \<Rightarrow>
          if a_computed attr \<or> getprop_pre attr ReadOnly then
            (if dict_truthy attrData (a_name attr)
             then Inl (cRuntimeError (''Tried to access the read only attribute '' @ a_name attr))
             else supplied_loop attributes items (dict_del (a_name attr) attrData))
          else
            (case a_coerceValueList attr val of
               Inl e \<Rightarrow> Inl e
             | Inr coerced \<Rightarrow> supplied_loop attributes items (dict_set attrName coerced attrData)))"

text \<open>
  The second loop, over all attributes of the class; the errors of the pre-validation
  are collected.
  \<^verbatim>\<open>
  elist = []
  for attr in toc._attributes.values():
      if attr.computed:
          continue
      if attr.getprop(pytransact.object.property.ReadOnly, pre=True):
          default = attr.default or []
          self.attrData[attr.name] = list(default)
      else:
          if not self.attrData.get(attr.name):
              default = attr.default # or []
              self.attrData[attr.name] = attr.coerceValueList(default)
          try:
              self.attrData[attr.name] = context.validateAttrValues(
                  None, attr, self.attrData[attr.name], pre=True)
          except ClientError as e:
              elist.append(e.args[0])
          except LocalisedError as e:
              elist.append(e)
  if elist:
      raise cAttrErrorList(elist)
  \<close>
\<close>

definition stored_or_default ::
  "'v attribute \<Rightarrow> (string \<times> 'v list) list \<Rightarrow> create_error + (string \<times> 'v list) list \<times> 'v list"
where
  "stored_or_default attr attrData =
     (let fill = map_sum id (\<lambda>v. (dict_set (a_name attr) v attrData, v))
                   (a_coerceValueList attr (a_default attr))
      in case dict_get attrData (a_name attr) of
           None \<Rightarrow> fill
         | Some v \<Rightarrow> if v \<noteq> [] then Inr (attrData, v) else fill)"

fun defaults_loop ::
  "'v attribute list \<Rightarrow> (string \<times> 'v list) list \<Rightarrow> create_error list
   \<Rightarrow> create_error + (string \<times> 'v list) list"
where
  "defaults_loop [] attrData elist = (if elist \<noteq> [] then Inl (cAttrErrorList elist) else Inr attrData)"
| "defaults_loop (attr # attrs) attrData elist =
     (if a_computed attr then defaults_loop attrs attrData elist
      else if getprop_pre attr ReadOnly
        then defaults_loop attrs (dict_set (a_name attr) (a_default attr) attrData) elist
      else
        (case stored_or_default attr attrData of
           Inl e \<Rightarrow> Inl e
         | Inr (attrData1, v) \<Rightarrow>
             (case a_prevalidate attr v of
                Inl e \<Rightarrow> defaults_loop attrs attrData1 (elist @ [e])
              | Inr v' \<Rightarrow> defaults_loop attrs (dict_set (a_name attr) v' attrData1) elist)))"

text \<open>
  \<open>CreateToi.operate\<close> up to the point where the create actions run: the attribute data
  the instance will be created from, or the exception raised.
\<close>

definition CreateToi_attrData ::
  "(string \<times> 'v attribute) list \<Rightarrow> (string \<times> 'v list) list \<Rightarrow> create_error + (string \<times> 'v list) list"
where
  "CreateToi_attrData attributes attrData =
     (case supplied_loop attributes attrData attrData of
        Inl e \<Rightarrow> Inl e
      | Inr attrData1 \<Rightarrow> defaults_loop (map snd attributes) attrData1 [])"

subsection \<open>Sequence diffs (\<open>diff.py\<close>)\<close>

text \<open>
  Python's slice bounds: a negative bound counts from the end, and every bound is
  clamped to the list; an upper bound below the lower one gives an empty slice at the
  lower one.
\<close>

definition py_bound :: "int \<Rightarrow> nat \<Rightarrow> nat" where
  "py_bound i n =
     (if i < 0 then (if i + int n < 0 then 0 else nat (i + int n))
      else if int n < i then n else nat i)"

text \<open>\<open>xs[i:j]\<close>\<close>

definition py_slice :: "'a list \<Rightarrow> int \<Rightarrow> int \<Rightarrow> 'a list" where
  "py_slice xs i j =
     (let lo = py_bound i (length xs); hi = max lo (py_bound j (length xs))
      in take (hi - lo) (drop lo xs))"

text \<open>\<open>xs[i:j] = data\<close>\<close>

definition py_slice_assign :: "'a list \<Rightarrow> int \<Rightarrow> int \<Rightarrow> 'a list \<Rightarrow> 'a list" where
  "py_slice_assign xs i j data =
     (let lo = py_bound i (length xs); hi = max lo (py_bound j (length xs))
      in take lo xs @ data @ drop hi xs)"

text \<open>
  \<^verbatim>\<open>
  def apply_opcodes(old, opcodes):
      result = list(old)
      offset = 0
      for idx1, idx2, data in opcodes:
          result[idx1+offset: idx2+offset] = data
          offset += len(data) - (idx2 - idx1)
      return result
  \<close>
\<close>

fun apply_opcodes_loop :: "'a list \<Rightarrow> int \<Rightarrow> (int \<times> int \<times> 'a list) list \<Rightarrow> 'a list" where
  "apply_opcodes_loop result offset [] = result"
| "apply_opcodes_loop result offset ((idx1, idx2, data) # opcodes) =
     apply_opcodes_loop (py_slice_assign result (idx1 + offset) (idx2 + offset) data)
       (offset + (int (length data) - (idx2 - idx1))) opcodes"

definition apply_opcodes :: "'a list \<Rightarrow> (int \<times> int \<times> 'a list) list \<Rightarrow> 'a list" where
  "apply_opcodes old opcodes = apply_opcodes_loop old 0 opcodes"

text \<open>
  \<open>diff_opcodes\<close> asks Python's \<open>difflib.SequenceMatcher\<close> for its opcodes. The matcher
  is not part of pytransact; what it finds is a parameter here, the list of matching
  blocks \<open>(i, j, n)\<close> of \<open>get_matching_blocks()\<close>. \<open>get_opcodes\<close> turns the blocks into
  opcodes as difflib does:
  \<^verbatim>\<open>
  i = j = 0
  answer = []
  for ai, bj, size in self.get_matching_blocks():
      tag = ''
      if i < ai and j < bj:   tag = 'replace'
      elif i < ai:            tag = 'delete'
      elif j < bj:            tag = 'insert'
      if tag:
          answer.append( (tag, i, ai, j, bj) )
      i, j = ai+size, bj+size
      if size:
          answer.append( ('equal', ai, i, bj, j) )
  return answer
  \<close>
\<close>

type_synonym opcode = "string \<times> nat \<times> nat \<times> nat \<times> nat"

fun get_opcodes_loop :: "nat \<Rightarrow> nat \<Rightarrow> (nat \<times> nat \<times> nat) list \<Rightarrow> opcode list" where
  "get_opcodes_loop i j [] = []"
| "get_opcodes_loop i j ((ai, bj, sz) # blocks) =
     (let tag = (if i < ai \<and> j < bj then ''replace''
                 else if i < ai then ''delete''
                 else if j < bj then ''insert''
                 else '''');
          changed = (if tag \<noteq> '''' then [(tag, i, ai, j, bj)] else []);
          i' = ai + sz;
          j' = bj + sz;
          equal = (if sz \<noteq> 0 then [(''equal'', ai, i', bj, j')] else [])
      in changed @ equal @ get_opcodes_loop i' j' blocks)"

definition get_opcodes :: "(nat \<times> nat \<times> nat) list \<Rightarrow> opcode list" where
  "get_opcodes blocks = get_opcodes_loop 0 0 blocks"

text \<open>
  \<^verbatim>\<open>
  def diff_opcodes(old, new):
      matcher = difflib.SequenceMatcher(None, old, new)
      opcodes = matcher.get_opcodes()
      result = []
      for opcode in opcodes:
          if opcode[0] == 'equal':
              continue
          result.append((opcode[1], opcode[2],
                         new[opcode[3]:opcode[4]]))
      return result
  \<close>
\<close>

fun diff_opcodes_loop :: "'a list \<Rightarrow> opcode list \<Rightarrow> (int \<times> int \<times> 'a list) list" where
  "diff_opcodes_loop new [] = []"
| "diff_opcodes_loop new ((tag, i1, i2, j1, j2) # opcodes) =
     (if tag = ''equal'' then diff_opcodes_loop new opcodes
      else (int i1, int i2, py_slice new (int j1) (int j2)) # diff_opcodes_loop new opcodes)"

definition diff_opcodes :: "(nat \<times> nat \<times> nat) list \<Rightarrow> 'a list \<Rightarrow> 'a list \<Rightarrow> (int \<times> int \<times> 'a list) list" where
  "diff_opcodes blocks old new = diff_opcodes_loop new (get_opcodes blocks)"

text \<open>
  What difflib promises of \<open>get_matching_blocks()\<close> for the sequences \<open>a\<close> and \<open>b\<close>: each
  triple \<open>(i, j, n)\<close> means \<open>a[i:i+n] == b[j:j+n]\<close>, the triples are monotonically
  increasing in \<open>i\<close> and \<open>j\<close>, and the last triple is the dummy \<open>(len(a), len(b), 0)\<close>.
  \<open>matching_blocks_from a b i j blocks\<close> says so for blocks that start at or after
  position \<open>i\<close> of \<open>a\<close> and \<open>j\<close> of \<open>b\<close>.
\<close>

fun matching_blocks_from :: "'a list \<Rightarrow> 'a list \<Rightarrow> nat \<Rightarrow> nat \<Rightarrow> (nat \<times> nat \<times> nat) list \<Rightarrow> bool" where
  "matching_blocks_from a b i j [] = False"
| "matching_blocks_from a b i j [(ai, bj, n)] =
     (i \<le> ai \<and> j \<le> bj \<and> ai = length a \<and> bj = length b \<and> n = 0)"
| "matching_blocks_from a b i j ((ai, bj, n) # blocks) =
     (i \<le> ai \<and> j \<le> bj \<and> ai + n \<le> length a \<and> bj + n \<le> length b
      \<and> take n (drop ai a) = take n (drop bj b)
      \<and> matching_blocks_from a b (ai + n) (bj + n) blocks)"

definition matching_blocks :: "'a list \<Rightarrow> 'a list \<Rightarrow> (nat \<times> nat \<times> nat) list \<Rightarrow> bool" where
  "matching_blocks a b blocks = matching_blocks_from a b 0 0 blocks"

subsection \<open>Persisting a commit: \<open>CommitContext.commit\<close> (\<open>commit.py\<close>, \<open>mongo.py\<close>)\<close>

text \<open>
  A document of the instance collection: its \<open>_id\<close>, the lock field \<open>_handled_by\<close>
  (absent when nobody holds the lock), the class tag \<open>_toc\<close> and the attribute values.
  The lock field is kept apart from the attribute values: no attribute is named
  \<open>_handled_by\<close>.
\<close>

record 'v toi_doc =
  d_id :: oid
  d_handled_by :: "oid option"
  d_toc :: string
  d_attrs :: "(string \<times> 'v list) list"

text \<open>A \<open>DiffTOI\<close> (\<open>difftoi.py\<close>) and the staged data of a commit.\<close>

record 'v difftoi =
  dt_toid :: oid
  dt_toc_fullname :: string
  dt_diffAttrs :: "(string \<times> 'v list) list"
  dt_orgAttrs :: "(string \<times> 'v list) list"

record 'v staged =
  s_newTois :: "'v difftoi list"
  s_changedTois :: "'v difftoi list"
  s_deletedTois :: "oid list"

datatype storage_fault =
  AttributeError | UnknownToc | BulkWriteError | BlobError | OperationFailure

text \<open>
  \<^verbatim>\<open>
  def _lockTois(self, toids):
      status = mongo.update_many(
          self.database.tois,
          {'_id': {'$in': list(toids)}, '_handled_by': None},
          {'$set': {'_handled_by': self.id}})
      affected = status.modified_count
      if affected is None:
          affected = status.matched_count
      if affected == len(toids):
          affected = mongo.find(
              self.database.tois,
              {'_id': {'$in': list(toids)}, '_handled_by': self.id}).count()
      if affected != len(toids):
          # Locked or deleted?
          if mongo.find(self.database.tois,
                        {'_id': {'$in': list(toids)}}).count() != len(toids):
              raise CommitConflict(None, None)
          raise ToisLocked('Some TOIs already locked.', toids)
  \<close>
  \<open>toids\<close> is a set in the source; here it is a list without repetitions.
\<close>

definition count_docs :: "('v toi_doc \<Rightarrow> bool) \<Rightarrow> 'v toi_doc list \<Rightarrow> nat" where
  "count_docs P docs = length (filter P docs)"

definition lockTois ::
  "oid \<Rightarrow> oid list \<Rightarrow> 'v toi_doc list \<Rightarrow> (storage_fault commit_exn + unit) \<times> 'v toi_doc list" where
  "lockTois self toids docs =
     (let matched = (\<lambda>d. d_id d \<in> set toids \<and> d_handled_by d = None);
          affected0 = count_docs matched docs;
          docs1 = map (\<lambda>d. if matched d then d\<lparr>d_handled_by := Some self\<rparr> else d) docs;
          affected = (if affected0 = length toids
                      then count_docs (\<lambda>d. d_id d \<in> set toids \<and> d_handled_by d = Some self) docs1
                      else affected0)
      in if affected \<noteq> length toids then
           (if count_docs (\<lambda>d. d_id d \<in> set toids) docs1 \<noteq> length toids
            then (Inl CommitConflict, docs1)
            else (Inl ToisLocked, docs1))
         else (Inr (), docs1))"

text \<open>
  \<^verbatim>\<open>
  def _unlockTois(self):
      mongo.update_many(self.database.tois, {'_handled_by': self.id},
                        {'$unset': {'_handled_by': True}})
  \<close>
\<close>

definition unlockTois :: "oid \<Rightarrow> 'v toi_doc list \<Rightarrow> 'v toi_doc list" where
  "unlockTois self docs =
     map (\<lambda>d. if d_handled_by d = Some self then d\<lparr>d_handled_by := None\<rparr> else d) docs"

text \<open>
  The conflict check: \<open>mongo.load_toi\<close> reads the document (an attribute the document
  lacks has the default of the class, \<open>default_of toc name\<close>), and \<open>DiffTOI.diffsOld\<close>
  compares every baseline value with it. Without a document \<open>find_one\<close> gives \<open>None\<close>
  and \<open>doc.pop\<close> raises.
\<close>

definition stored_value :: "(string \<Rightarrow> string \<Rightarrow> 'v list) \<Rightarrow> 'v toi_doc \<Rightarrow> string \<Rightarrow> 'v list" where
  "stored_value default_of doc name =
     (case map_of (d_attrs doc) name of Some v \<Rightarrow> v | None \<Rightarrow> default_of (d_toc doc) name)"

definition diffsOld :: "(string \<Rightarrow> string \<Rightarrow> 'v list) \<Rightarrow> 'v difftoi \<Rightarrow> 'v toi_doc \<Rightarrow> string list" where
  "diffsOld default_of toiDiff doc =
     map fst (filter (\<lambda>(name, val). val \<noteq> stored_value default_of doc name) (dt_orgAttrs toiDiff))"

fun conflict_check ::
  "(string \<Rightarrow> string \<Rightarrow> 'v list) \<Rightarrow> 'v toi_doc list \<Rightarrow> 'v difftoi list \<Rightarrow> storage_fault commit_exn + unit"
where
  "conflict_check default_of docs [] = Inr ()"
| "conflict_check default_of docs (toiDiff # rest) =
     (case find (\<lambda>d. d_id d = dt_toid toiDiff) docs of
        None \<Rightarrow> Inl (OtherException AttributeError)
      | Some doc \<Rightarrow>
          if diffsOld default_of toiDiff doc \<noteq> [] then Inl CommitConflict
          else conflict_check default_of docs rest)"

text \<open>
  The operations of the bulk write: an upsert per new instance
  (\<open>mongo.bulk_save_toi\<close>), a \<open>$set\<close> per changed instance with a non-empty diff, and
  one \<open>DeleteMany\<close> (\<open>mongo.bulk_remove_tois\<close>).
\<close>

datatype 'v dbop =
    Upsert oid string "(string \<times> 'v list) list"
  | SetAttrs oid "(string \<times> 'v list) list"
  | DeleteMany "oid list"

definition set_attrs :: "(string \<times> 'v list) list \<Rightarrow> 'v toi_doc \<Rightarrow> 'v toi_doc" where
  "set_attrs new doc = doc\<lparr>d_attrs := fold (\<lambda>(k, v). dict_set k v) new (d_attrs doc)\<rparr>"

fun apply_dbop :: "'v dbop \<Rightarrow> 'v toi_doc list \<Rightarrow> 'v toi_doc list" where
  "apply_dbop (Upsert i toc attrs) docs =
     (if list_ex (\<lambda>d. d_id d = i) docs
      then map (\<lambda>d. if d_id d = i then (set_attrs attrs d)\<lparr>d_toc := toc\<rparr> else d) docs
      else docs @ [\<lparr>d_id = i, d_handled_by = None, d_toc = toc, d_attrs = attrs\<rparr>])"
| "apply_dbop (SetAttrs i attrs) docs = map (\<lambda>d. if d_id d = i then set_attrs attrs d else d) docs"
| "apply_dbop (DeleteMany toids) docs = filter (\<lambda>d. d_id d \<notin> set toids) docs"

text \<open>
  An unordered bulk write: \<open>ok\<close> says for each operation whether the server carried it
  out; if one was not, BulkWriteError is raised after the others were.
\<close>

fun bulk_write :: "'v dbop list \<Rightarrow> bool list \<Rightarrow> 'v toi_doc list \<Rightarrow> (storage_fault commit_exn + unit) \<times> 'v toi_doc list" where
  "bulk_write [] ok docs = (Inr (), docs)"
| "bulk_write (op # ops) [] docs = bulk_write ops [] (apply_dbop op docs)"
| "bulk_write (op # ops) (True # ok) docs = bulk_write ops ok (apply_dbop op docs)"
| "bulk_write (op # ops) (False # ok) docs =
     (Inl (OtherException BulkWriteError), snd (bulk_write ops ok docs))"

text \<open>
  What lies outside the database of instances during one attempt: which classes
  \<open>blm.getTocByFullname\<close> knows, the defaults of their attributes, which operations of
  the bulk write the server carries out, whether a blob reference update fails, and
  whether \<open>previous_error()\<close> reports an error.
\<close>

record 'v commit_env =
  env_known_toc :: "string \<Rightarrow> bool"
  env_default_of :: "string \<Rightarrow> string \<Rightarrow> 'v list"
  env_bulk_ok :: "bool list"
  env_blob_fault :: bool
  env_previous_error :: bool

text \<open>
  \<open>Commit.done\<close>: without an interested party the commit record is deleted, otherwise
  it is replaced by a record in state done that holds the results and the error.
\<close>

definition commit_done :: "('op, 'r, 'd, 'e, 't) database \<Rightarrow> ('op, 'r, 'd, 'e) commit \<Rightarrow> ('op, 'r, 'd, 'e, 't) database" where
  "commit_done db commit =
     (if c_interested commit = None then delete db commit
      else save db \<lparr>c_id = c_id commit, c_user = None, c_interested = c_interested commit,
                    c_handled_by = c_interested commit, c_error = c_error commit,
                    c_state = StateDone, c_generation = 0, c_operations = [],
                    c_results = c_results commit, c_staged = None, c_traceback = False\<rparr>)"

definition staged_of :: "('op, 'r, 'v staged, 'e) commit \<Rightarrow> 'v staged" where
  "staged_of commit =
     (case c_staged commit of
        Some s \<Rightarrow> s
      | None \<Rightarrow> \<lparr>s_newTois = [], s_changedTois = [], s_deletedTois = []\<rparr>)"

text \<open>
  The body of the \<open>try\<close> statement of \<open>commit\<close>, step by step; each step that raises
  ends the body with the database as it is then.
  \<^verbatim>\<open>
  try:
      self._lockTois(affectedToids)
      for toiDiff in changedTois:
          toi = mongo.load_toi(self.database, toiDiff.toid, set(toiDiff.orgAttrs))
          diff = toiDiff.diffsOld(toi)
          if diff:
              raise CommitConflict(toi, diff)
      self.database.reset_error_history()
      dbops = []
      for toiDiff in newTois:
          toc = blm.getTocByFullname(toiDiff.toc_fullname)
          dbops.append(mongo.bulk_save_toi(toiDiff.toid, toc, toiDiff.diffAttrs))
      for toiDiff in changedTois:
          if toiDiff.diffAttrs:
              doc = {'$set': toiDiff.diffAttrs}
              spec = {'_id': toiDiff.toid}
              dbops.append(pymongo.operations.UpdateOne(spec, doc))
      dbops.append(mongo.bulk_remove_tois(deletedTois))
      try:
          result = mongo.bulk_write(self.database.tois, dbops, ordered=False)
      except BulkWriteError as exc:
          log.exception('Bulk write error: %s, ops: %s', exc.details, dbops)
          raise
      dbops = self.saveIndexData(indexData)        # returns []
      ... blob addref / delref ...
      error = self.database.previous_error()
      if error:
          raise OperationFailure(error.get('err'), error.get('code'))
      commit.done(self.database)
  finally:
      # xxx unlock commit object?
      self._unlockTois()
  \<close>
\<close>

definition commit_try ::
  "oid \<Rightarrow> 'v commit_env \<Rightarrow> ('op, 'r, 'v staged, 'e, 'v toi_doc list) database
   \<Rightarrow> ('op, 'r, 'v staged, 'e) commit
   \<Rightarrow> (storage_fault commit_exn + unit) \<times> ('op, 'r, 'v staged, 'e, 'v toi_doc list) database"
where
  "commit_try self env db commit =
     (let deletedTois = s_deletedTois (staged_of commit);
          changedTois = s_changedTois (staged_of commit);
          newTois = s_newTois (staged_of commit);
          affectedToids = remdups (deletedTois @ map dt_toid changedTois)
      in case lockTois self affectedToids (tois db) of
           (Inl x, docs1) \<Rightarrow> (Inl x, db\<lparr>tois := docs1\<rparr>)
         | (Inr _, docs1) \<Rightarrow>
      (case conflict_check (env_default_of env) docs1 changedTois of
           Inl x \<Rightarrow> (Inl x, db\<lparr>tois := docs1\<rparr>)
         | Inr _ \<Rightarrow>
      if \<not> list_all (\<lambda>t. env_known_toc env (dt_toc_fullname t)) newTois
      then (Inl (OtherException UnknownToc), db\<lparr>tois := docs1\<rparr>)
      else
        let dbops = map (\<lambda>t. Upsert (dt_toid t) (dt_toc_fullname t) (dt_diffAttrs t)) newTois
                  @ map (\<lambda>t. SetAttrs (dt_toid t) (dt_diffAttrs t))
                      (filter (\<lambda>t. dt_diffAttrs t \<noteq> []) changedTois)
                  @ [DeleteMany deletedTois]
        in case bulk_write dbops (env_bulk_ok env) docs1 of
             (Inl x, docs2) \<Rightarrow> (Inl x, db\<lparr>tois := docs2\<rparr>)
           | (Inr _, docs2) \<Rightarrow>
               if env_blob_fault env then (Inl (OtherException BlobError), db\<lparr>tois := docs2\<rparr>)
               else if env_previous_error env
                 then (Inl (OtherException OperationFailure), db\<lparr>tois := docs2\<rparr>)
               else (Inr (), commit_done (db\<lparr>tois := docs2\<rparr>) commit)))"

text \<open>\<open>commit\<close>: the body, then the \<open>finally\<close> clause, whatever the body did.\<close>

definition commit ::
  "oid \<Rightarrow> 'v commit_env \<Rightarrow> ('op, 'r, 'v staged, 'e, 'v toi_doc list) database
   \<Rightarrow> ('op, 'r, 'v staged, 'e) commit
   \<Rightarrow> (storage_fault commit_exn + unit) \<times> ('op, 'r, 'v staged, 'e, 'v toi_doc list) database"
where
  "commit self env db c =
     (case commit_try self env db c of
        (raised, db1) \<Rightarrow> (raised, db1\<lparr>tois := unlockTois self (tois db1)\<rparr>))"

subsection \<open>Glob patterns: \<open>makeRe\<close> (\<open>queryops.py\<close>)\<close>

definition bs :: char where
  "bs = CHR 0x5C"

definition nl :: char where
  "nl = CHR 0x0A"

text \<open>
  \<open>re.escape\<close> of Python 3.7 and later puts a backslash (\<open>bs\<close>) before each of the
  characters \<^verbatim>\<open>()[]{}?*+-|^$\.&~#\<close>, the space and the white space characters tab,
  newline, carriage return, vertical tab and form feed.
\<close>

definition re_special :: "char \<Rightarrow> bool" where
  "re_special c \<longleftrightarrow>
     c \<in> set ''()[]{}?*+-|^$.&~# '' \<or> c = bs
     \<or> c \<in> {CHR 0x09, CHR 0x0A, CHR 0x0D, CHR 0x0B, CHR 0x0C}"

definition re_escape :: "string \<Rightarrow> string" where
  "re_escape p = concat (map (\<lambda>c. if re_special c then [bs, c] else [c]) p)"

text \<open>
  \<open>replaceAsterisk.sub(r'\1.*', p)\<close> for
  \<^verbatim>\<open>replaceAsterisk = re.compile(r'(^|[^\\])\\\*+')\<close>:
  scanning from the left, a match is a backslash and a run of asterisks, preceded by
  the start of the string or by one character that is not a backslash (which the
  match includes and the replacement keeps); the scan goes on behind the match.
  \<open>at_start\<close> says whether the scan is at position 0.
\<close>

function sub_asterisk :: "bool \<Rightarrow> string \<Rightarrow> string" where
  "sub_asterisk at_start [] = []"
| "sub_asterisk at_start (c # r) =
     (if at_start \<and> c = bs \<and> take 1 r = ''*''
        then ''.*'' @ sub_asterisk False (dropWhile (\<lambda>x. x = CHR ''*'') r)
      else if c \<noteq> bs \<and> take 2 r = [bs, CHR ''*'']
        then c # ''.*'' @ sub_asterisk False (dropWhile (\<lambda>x. x = CHR ''*'') (drop 1 r))
      else c # sub_asterisk False r)"
  by pat_completeness auto
termination
  by (relation "measure (\<lambda>(a, s). length s)")
     (auto simp: less_Suc_eq_le intro: le_trans [OF length_dropWhile_le])

text \<open>
  \<open>replaceQuestionmark.sub(r'\1.', p)\<close> for
  \<^verbatim>\<open>replaceQuestionmark = re.compile(r'(^|[^\\])\\\?')\<close>.
\<close>

fun sub_question :: "bool \<Rightarrow> string \<Rightarrow> string" where
  "sub_question at_start [] = []"
| "sub_question at_start (c # r) =
     (if at_start \<and> c = bs \<and> take 1 r = ''?''
        then ''.'' @ sub_question False (drop 1 r)
      else if c \<noteq> bs \<and> take 2 r = [bs, CHR ''?'']
        then c # ''.'' @ sub_question False (drop 2 r)
      else c # sub_question False r)"

text \<open>
  \<open>replaceBackslash.sub(r'\1', p)\<close> for
  \<^verbatim>\<open>replaceBackslash = re.compile(r'\\\\(..?)')\<close>:
  two backslashes and the one or two characters behind them (the dot matches no
  newline) are replaced by those characters.
\<close>

fun sub_backslash :: "string \<Rightarrow> string" where
  "sub_backslash (a # b # x # rest) =
     (if a = bs \<and> b = bs \<and> x \<noteq> nl then
        (case rest of
           [] \<Rightarrow> [x]
         | y # rest' \<Rightarrow> if y \<noteq> nl then x # y # sub_backslash rest' else x # sub_backslash rest)
      else a # sub_backslash (b # x # rest))"
| "sub_backslash s = s"

text \<open>
  \<^verbatim>\<open>
  def makeRe(p, flags=0):
      """
      Create a 'glob' regexp. Supported expressions are
      * - match anything
      ? - match exactly one character and
      \n - escape the 'n' character
      """
      p = re.escape(p)
      if p.endswith(r'\*'):
          p = p[:-2]
      else:
          p = p + '$'
      if p.startswith(r'\*'):
          p = p[2:]
      else:
          p = '^' + p
      p = replaceAsterisk.sub(r'\1.*', p)
      p = replaceQuestionmark.sub(r'\1.', p)
      p = replaceBackslash.sub(r'\1', p)
      return re.compile(p, flags | re.U)
  \<close>
  \<open>makeRe_pattern\<close> is the pattern string that is compiled.
\<close>

definition endswith :: "string \<Rightarrow> string \<Rightarrow> bool" where
  "endswith s t \<longleftrightarrow> length t \<le> length s \<and> drop (length s - length t) s = t"

definition startswith :: "string \<Rightarrow> string \<Rightarrow> bool" where
  "startswith s t \<longleftrightarrow> take (length t) s = t"

definition makeRe_pattern :: "string \<Rightarrow> string" where
  "makeRe_pattern glob =
     (let p = re_escape glob;
          p = (if endswith p [bs, CHR ''*''] then take (length p - 2) p else p @ ''$'');
          p = (if startswith p [bs, CHR ''*''] then drop 2 p else ''^'' @ p);
          p = sub_asterisk True p;
          p = sub_question True p;
          p = sub_backslash p
      in p)"

text \<open>
  The regular expressions that come out of \<open>makeRe\<close> are sequences of: \<open>^\<close> (start of
  the string), \<open>$\<close> (end of the string, or just before a newline that ends it), \<open>.\<close>
  (one character that is no newline), \<open>.*\<close> (any number of them), and literal
  characters, written with a backslash when they are special. \<open>re_parse\<close> reads such a
  pattern; other patterns are not covered (\<open>None\<close>).
\<close>

datatype re_item = Bol | Eol | AnyChar | AnyStar | Lit char

fun re_parse :: "string \<Rightarrow> re_item list option" where
  "re_parse [] = Some []"
| "re_parse (c # r) =
     (if c = bs then
        (case r of
           [] \<Rightarrow> None
         | d # r' \<Rightarrow> if re_special d then map_option ((#) (Lit d)) (re_parse r') else None)
      else if c = CHR ''.'' then
        (case r of
           d # r' \<Rightarrow> if d = CHR ''*'' then map_option ((#) AnyStar) (re_parse r')
                     else map_option ((#) AnyChar) (re_parse r)
         | [] \<Rightarrow> Some [AnyChar])
      else if c = CHR ''^'' then map_option ((#) Bol) (re_parse r)
      else if c = CHR ''$'' then map_option ((#) Eol) (re_parse r)
      else if re_special c then None
      else map_option ((#) (Lit c)) (re_parse r))"

text \<open>
  \<open>re_match items at_start s\<close>: do the items match a prefix of \<open>s\<close>, where \<open>s\<close> is what
  is left of the subject and \<open>at_start\<close> says whether nothing of it has been passed.
\<close>

fun re_match :: "re_item list \<Rightarrow> bool \<Rightarrow> string \<Rightarrow> bool" where
  "re_match [] at_start s = True"
| "re_match (Bol # items) at_start s = (at_start \<and> re_match items at_start s)"
| "re_match (Eol # items) at_start s = ((s = [] \<or> s = [nl]) \<and> re_match items at_start s)"
| "re_match (AnyChar # items) at_start [] = False"
| "re_match (AnyChar # items) at_start (c # s) = (c \<noteq> nl \<and> re_match items False s)"
| "re_match (Lit d # items) at_start [] = False"
| "re_match (Lit d # items) at_start (c # s) = (c = d \<and> re_match items False s)"
| "re_match (AnyStar # items) at_start [] = re_match items at_start []"
| "re_match (AnyStar # items) at_start (c # s) =
     (re_match items at_start (c # s) \<or> (c \<noteq> nl \<and> re_match (AnyStar # items) False s))"

text \<open>\<open>r.search(s)\<close>: a match that starts at some position of \<open>s\<close>.\<close>

fun re_search_from :: "re_item list \<Rightarrow> bool \<Rightarrow> string \<Rightarrow> bool" where
  "re_search_from items at_start [] = re_match items at_start []"
| "re_search_from items at_start (c # s) =
     (re_match items at_start (c # s) \<or> re_search_from items False s)"

text \<open>\<open>makeRe(glob).search(s)\<close>, where the pattern is covered.\<close>

definition makeRe_search :: "string \<Rightarrow> string \<Rightarrow> bool option" where
  "makeRe_search glob s = map_option (\<lambda>items. re_search_from items True s) (re_parse (makeRe_pattern glob))"

section \<open>Properties\<close>

subsection \<open>The new, changed and deleted maps\<close>

lemma maps_disjoint_iff:
  "maps_disjoint ctx \<longleftrightarrow>
     (\<forall>k. (newTois ctx k = None \<or> changedTois ctx k = None) \<and>
          (newTois ctx k = None \<or> deletedTois ctx k = None) \<and>
          (changedTois ctx k = None \<or> deletedTois ctx k = None))"
proof
  assume d: "maps_disjoint ctx"
  show "\<forall>k. (newTois ctx k = None \<or> changedTois ctx k = None) \<and>
          (newTois ctx k = None \<or> deletedTois ctx k = None) \<and>
          (changedTois ctx k = None \<or> deletedTois ctx k = None)"
  proof
    fix k
    from d have "k \<notin> dom (newTois ctx) \<or> k \<notin> dom (changedTois ctx)"
      and "k \<notin> dom (newTois ctx) \<or> k \<notin> dom (deletedTois ctx)"
      and "k \<notin> dom (changedTois ctx) \<or> k \<notin> dom (deletedTois ctx)"
      unfolding maps_disjoint_def by blast+
    then show "(newTois ctx k = None \<or> changedTois ctx k = None) \<and>
          (newTois ctx k = None \<or> deletedTois ctx k = None) \<and>
          (changedTois ctx k = None \<or> deletedTois ctx k = None)"
      by (simp add: domIff)
  qed
next
  assume a: "\<forall>k. (newTois ctx k = None \<or> changedTois ctx k = None) \<and>
          (newTois ctx k = None \<or> deletedTois ctx k = None) \<and>
          (changedTois ctx k = None \<or> deletedTois ctx k = None)"
  have "k \<notin> dom (newTois ctx) \<inter> dom (changedTois ctx)"
    and "k \<notin> dom (newTois ctx) \<inter> dom (deletedTois ctx)"
    and "k \<notin> dom (changedTois ctx) \<inter> dom (deletedTois ctx)" for k
    using spec [OF a, of k] by (auto simp: domIff)
  then show "maps_disjoint ctx"
    unfolding maps_disjoint_def by blast
qed

lemma clear_disjoint: "maps_disjoint (setMayChange clear b)"
  by (simp add: maps_disjoint_def clear_def setMayChange_def)

lemma register_readonly: "\<not> mayChange ctx \<Longrightarrow> register ctx t = Inl ReadOnlyContext"
  by (simp add: register_def Let_def)

lemma register_deleted_known:
  "mayChange ctx \<Longrightarrow> toi_deleted t \<Longrightarrow> deletedTois ctx (toi_id t) \<noteq> None \<Longrightarrow>
   register ctx t = Inr ctx"
  by (simp add: register_def Let_def)

lemma register_deleted_new:
  "mayChange ctx \<Longrightarrow> toi_deleted t \<Longrightarrow> deletedTois ctx (toi_id t) = None \<Longrightarrow>
   newTois ctx (toi_id t) \<noteq> None \<Longrightarrow>
   register ctx t = Inr (ctx\<lparr>newTois := (newTois ctx)(toi_id t := None)\<rparr>)"
  by (simp add: register_def Let_def)

lemma register_deleted_other:
  "mayChange ctx \<Longrightarrow> toi_deleted t \<Longrightarrow> deletedTois ctx (toi_id t) = None \<Longrightarrow>
   newTois ctx (toi_id t) = None \<Longrightarrow>
   register ctx t = Inr (ctx\<lparr>changedTois := (changedTois ctx)(toi_id t := None),
                              deletedTois := (deletedTois ctx)(toi_id t \<mapsto> t)\<rparr>)"
proof (cases "changedTois ctx (toi_id t)")
  case None
  then have "(changedTois ctx)(toi_id t := None) = changedTois ctx" by (simp add: fun_upd_idem)
  moreover assume "mayChange ctx" "toi_deleted t" "deletedTois ctx (toi_id t) = None"
    "newTois ctx (toi_id t) = None"
  ultimately show ?thesis using None by (simp add: register_def Let_def)
next
  case (Some a)
  moreover assume "mayChange ctx" "toi_deleted t" "deletedTois ctx (toi_id t) = None"
    "newTois ctx (toi_id t) = None"
  ultimately show ?thesis by (simp add: register_def Let_def)
qed

lemma register_live:
  "mayChange ctx \<Longrightarrow> \<not> toi_deleted t \<Longrightarrow>
   register ctx t =
     Inr (if newTois ctx (toi_id t) = None \<and> changedTois ctx (toi_id t) = None
          then ctx\<lparr>changedTois := (changedTois ctx)(toi_id t \<mapsto> t)\<rparr> else ctx)"
  by (simp add: register_def Let_def)

text \<open>
  C10, as stated, fails: from the cleared context, registering a deleted instance and
  then a non-deleted instance object with the same id leaves that id in both changedTois
  and deletedTois.
\<close>

theorem C10_register_disjoint_counterexample:
  "\<exists>ctx'. register_all (setMayChange clear True)
             [\<lparr>toi_id = 1, toi_deleted = True\<rparr>, \<lparr>toi_id = 1, toi_deleted = False\<rparr>] = Inr ctx'
          \<and> \<not> maps_disjoint ctx'
          \<and> 1 \<in> dom (changedTois ctx') \<inter> dom (deletedTois ctx')"
  by (simp add: register_def clear_def setMayChange_def maps_disjoint_def Let_def)

text \<open>
  C10 (amended): if the three maps are pairwise disjoint before a register call and the
  registered instance is marked deleted whenever its id is already in deletedTois, they
  are pairwise disjoint after it. A deleted instance whose id is in newTois is dropped
  from newTois and does not enter deletedTois; otherwise a deleted instance leaves
  changedTois and enters deletedTois; a non-deleted instance enters changedTois exactly
  when its id is in neither newTois nor changedTois, and nothing else changes.
\<close>

theorem C10_register_disjoint:
  assumes "maps_disjoint ctx"
    and "register ctx t = Inr ctx'"
    and "deletedTois ctx (toi_id t) \<noteq> None \<longrightarrow> toi_deleted t"
  shows "maps_disjoint ctx' \<and>
    (toi_deleted t \<and> deletedTois ctx (toi_id t) = None \<and> newTois ctx (toi_id t) \<noteq> None \<longrightarrow>
       ctx' = ctx\<lparr>newTois := (newTois ctx)(toi_id t := None)\<rparr>) \<and>
    (toi_deleted t \<and> deletedTois ctx (toi_id t) = None \<and> newTois ctx (toi_id t) = None \<longrightarrow>
       ctx' = ctx\<lparr>changedTois := (changedTois ctx)(toi_id t := None),
                  deletedTois := (deletedTois ctx)(toi_id t \<mapsto> t)\<rparr>) \<and>
    (\<not> toi_deleted t \<longrightarrow>
       ctx' = (if newTois ctx (toi_id t) = None \<and> changedTois ctx (toi_id t) = None
               then ctx\<lparr>changedTois := (changedTois ctx)(toi_id t \<mapsto> t)\<rparr> else ctx))"
proof -
  have mc: "mayChange ctx"
  proof (rule ccontr)
    assume "\<not> mayChange ctx"
    then have "register ctx t = Inl ReadOnlyContext" by (rule register_readonly)
    with assms(2) show False by simp
  qed
  note d = assms(1) [unfolded maps_disjoint_iff, rule_format]
  consider (known) "toi_deleted t" "deletedTois ctx (toi_id t) \<noteq> None"
    | (new) "toi_deleted t" "deletedTois ctx (toi_id t) = None" "newTois ctx (toi_id t) \<noteq> None"
    | (other) "toi_deleted t" "deletedTois ctx (toi_id t) = None" "newTois ctx (toi_id t) = None"
    | (add) "\<not> toi_deleted t" "newTois ctx (toi_id t) = None \<and> changedTois ctx (toi_id t) = None"
    | (keep) "\<not> toi_deleted t" "\<not> (newTois ctx (toi_id t) = None \<and> changedTois ctx (toi_id t) = None)"
    by blast
  then show ?thesis
  proof cases
    case known
    with mc assms(2) have "ctx' = ctx" by (simp add: register_deleted_known)
    with known assms(1) show ?thesis by auto
  next
    case new
    with mc assms(2) have e: "ctx' = ctx\<lparr>newTois := (newTois ctx)(toi_id t := None)\<rparr>"
      by (simp add: register_deleted_new)
    have "maps_disjoint ctx'"
      unfolding maps_disjoint_iff e using d by simp
    with new e show ?thesis by auto
  next
    case other
    with mc assms(2) have e: "ctx' = ctx\<lparr>changedTois := (changedTois ctx)(toi_id t := None),
                  deletedTois := (deletedTois ctx)(toi_id t \<mapsto> t)\<rparr>"
      by (simp add: register_deleted_other)
    have "maps_disjoint ctx'"
      unfolding maps_disjoint_iff e using d other by simp
    with other e show ?thesis by auto
  next
    case add
    with mc assms(2) have e: "ctx' = ctx\<lparr>changedTois := (changedTois ctx)(toi_id t \<mapsto> t)\<rparr>"
      by (simp add: register_live)
    from add assms(3) have "deletedTois ctx (toi_id t) = None" by blast
    with add have "maps_disjoint ctx'"
      unfolding maps_disjoint_iff e using d by simp
    with add e show ?thesis by auto
  next
    case keep
    with mc assms(2) have "ctx' = ctx" by (simp add: register_live)
    with keep assms(1) show ?thesis by auto
  qed
qed

theorem C10_register_disjoint_witness:
  "maps_disjoint \<lparr>deletedTois = Map.empty, newTois = Map.empty,
       changedTois = [1 \<mapsto> \<lparr>toi_id = 1, toi_deleted = False\<rparr>], mayChange = True\<rparr>
   \<and> register \<lparr>deletedTois = Map.empty, newTois = Map.empty,
       changedTois = [1 \<mapsto> \<lparr>toi_id = 1, toi_deleted = False\<rparr>], mayChange = True\<rparr>
       \<lparr>toi_id = 1, toi_deleted = True\<rparr>
     = Inr \<lparr>deletedTois = [1 \<mapsto> \<lparr>toi_id = 1, toi_deleted = True\<rparr>], newTois = Map.empty,
       changedTois = Map.empty, mayChange = True\<rparr>
   \<and> maps_disjoint \<lparr>deletedTois = [1 \<mapsto> \<lparr>toi_id = 1, toi_deleted = True\<rparr>],
       newTois = Map.empty, changedTois = Map.empty, mayChange = True\<rparr>"
proof -
  let ?c = "\<lparr>deletedTois = Map.empty, newTois = Map.empty,
       changedTois = [1 \<mapsto> \<lparr>toi_id = 1, toi_deleted = False\<rparr>], mayChange = True\<rparr>"
  let ?t = "\<lparr>toi_id = 1, toi_deleted = True\<rparr>"
  let ?c' = "\<lparr>deletedTois = [1 \<mapsto> ?t], newTois = Map.empty,
       changedTois = Map.empty, mayChange = True\<rparr>"
  have h1: "maps_disjoint ?c" by (simp add: maps_disjoint_def)
  have h2: "register ?c ?t = Inr ?c'" by (simp add: register_def Let_def)
  have h3: "deletedTois ?c (toi_id ?t) \<noteq> None \<longrightarrow> toi_deleted ?t" by simp
  from C10_register_disjoint [OF h1 h2 h3] have "maps_disjoint ?c'" by blast
  with h1 h2 show ?thesis by blast
qed

subsection \<open>The retry decorator\<close>


lemma retry_loop_stops:
  "k < length ws \<Longrightarrow> (\<forall>i<k. transient (func (n + i))) \<Longrightarrow> \<not> transient (func (n + k)) \<Longrightarrow>
   retry_loop func ws n exc sl =
     \<lparr>outcome = func (n + k), slept = sl @ take k ws, calls = Suc (n + k)\<rparr>"
proof (induction ws arbitrary: n k exc sl)
  case Nil
  then show ?case by simp
next
  case (Cons w ws)
  show ?case
  proof (cases k)
    case 0
    with Cons.prems(3) show ?thesis
      by (auto simp: transient_def split: sum.splits)
  next
    case (Suc j)
    from Cons.prems(2) Suc have t0: "transient (func n)" by force
    have a: "\<forall>i<j. transient (func (Suc n + i))"
      using Cons.prems(2) Suc by (metis Suc_less_eq add_Suc_shift)
    have b: "\<not> transient (func (Suc n + j))"
      using Cons.prems(3) Suc by simp
    have c: "j < length ws" using Cons.prems(1) Suc by simp
    from c a b have "retry_loop func ws (Suc n) None (sl @ [w]) =
        \<lparr>outcome = func (Suc n + j), slept = (sl @ [w]) @ take j ws, calls = Suc (Suc n + j)\<rparr>"
      by (rule Cons.IH)
    with t0 Suc show ?thesis
      by (auto simp: transient_def Let_def split: sum.splits)
  qed
qed

lemma retry_loop_exhausted:
  "ws \<noteq> [] \<Longrightarrow> (\<forall>i<length ws. transient (func (n + i))) \<Longrightarrow>
   retry_loop func ws n exc sl =
     \<lparr>outcome = Inl (UnboundLocalError ''exc''), slept = sl @ ws, calls = n + length ws\<rparr>"
proof (induction ws arbitrary: n exc sl)
  case Nil
  then show ?case by simp
next
  case (Cons w ws)
  from Cons.prems(2) have t0: "transient (func n)" by force
  show ?case
  proof (cases "ws = []")
    case True
    with t0 show ?thesis
      by (auto simp: transient_def Let_def split: sum.splits)
  next
    case False
    have "\<forall>i<length ws. transient (func (Suc n + i))"
      using Cons.prems(2) by (metis Suc_less_eq add_Suc_shift length_Cons)
    with False have "retry_loop func ws (Suc n) None (sl @ [w]) =
        \<lparr>outcome = Inl (UnboundLocalError ''exc''), slept = (sl @ [w]) @ ws,
         calls = Suc n + length ws\<rparr>"
      by (rule Cons.IH)
    with t0 show ?thesis
      by (auto simp: transient_def Let_def split: sum.splits)
  qed
qed

text \<open>
  What the wrapper does in general. If one of the first nine calls does not fail with a
  transient error, the wrapper ends with the outcome of the first such call (its value,
  or its exception, raised at once), having slept the first \<open>k\<close> waits after the
  \<open>k\<close> transient failures before it.
\<close>

lemma retry_stops_at_first_settled_call:
  assumes "k < 9" and "\<forall>i<k. transient (func i)" and "\<not> transient (func k)"
  shows "retry func = \<lparr>outcome = func k, slept = take k waits, calls = Suc k\<rparr>"
  using retry_loop_stops [of k waits func 0 None "[]"] assms
  by (simp add: retry_def waits_def)

text \<open>If all nine calls fail with a transient error, UnboundLocalError is raised.\<close>

lemma retry_exhausted:
  assumes "\<forall>i<9. transient (func i)"
  shows "retry func = \<lparr>outcome = Inl (UnboundLocalError ''exc''), slept = waits, calls = 9\<rparr>"
  using retry_loop_exhausted [of waits func 0 None "[]"] assms
  by (simp add: retry_def waits_def)

text \<open>
  C5: at a storage call that fails with a transient reconnect error every time, the
  wrapper makes nine calls, sleeps 0, 0.1, 0.5, 1, 2, 5, 5, 5 and 5 seconds (one sleep
  after each failed call, the last one after the ninth call), and then raises
  UnboundLocalError for the name \<open>exc\<close>, not the transient error.
\<close>

theorem C5_retry_exhausted:
  "retry (\<lambda>n. Inl (AutoReconnect ''connection lost'') :: storage_exn + unit) =
     \<lparr>outcome = Inl (UnboundLocalError ''exc''),
      slept = [0, 1 / 10, 1 / 2, 1, 2, 5, 5, 5, 5],
      calls = 9\<rparr>"
  by (simp add: retry_def waits_def Let_def)

subsection \<open>Coercion of the int attribute kind\<close>

theorem C7_int_coerce_fraction_counterexample:
  "Int_coerceValue (PyFloat (5 / 2)) = Inr 2 \<and> Int_coerceValue (PyFloat (- 7 / 2)) = Inr (- 3)"
  by code_simp

lemma trunc_toward_zero_of_int: "trunc_toward_zero (of_int i) = i"
  by (simp add: trunc_toward_zero_def)

lemma trunc_toward_zero_bounds:
  "\<bar>of_int (trunc_toward_zero x) - x\<bar> < 1 \<and> \<bar>of_int (trunc_toward_zero x)\<bar> \<le> \<bar>x\<bar>"
  unfolding trunc_toward_zero_def by (auto; linarith)

text \<open>
  C7 (amended): \<open>Int.coerceValue\<close> never rejects a finite float. It returns the float
  truncated towards zero: the result differs from the input by less than one and is
  not larger in magnitude, so a nonzero fractional part is dropped. Integral inputs
  (an int, or a float with no fractional part) coerce to the corresponding integer.
  The int-value error is raised where \<open>int()\<close> itself fails: for the
  infinities, for NaN and for \<open>None\<close>.
\<close>

theorem C7_int_coerce:
  "Int_coerceValue (PyFloat x) = Inr (trunc_toward_zero x)
   \<and> \<bar>of_int (trunc_toward_zero x) - x\<bar> < 1
   \<and> \<bar>of_int (trunc_toward_zero x)\<bar> \<le> \<bar>x\<bar>
   \<and> Int_coerceValue (PyInt i) = Inr i
   \<and> Int_coerceValue (PyFloat (of_int i)) = Inr i
   \<and> Int_coerceValue PyInf = Inl (IntValueError PyInf)
   \<and> Int_coerceValue PyNegInf = Inl (IntValueError PyNegInf)
   \<and> Int_coerceValue PyNaN = Inl (IntValueError PyNaN)
   \<and> Int_coerceValue PyNone = Inl (IntValueError PyNone)"
  using trunc_toward_zero_bounds [of x]
  by (simp add: Int_coerceValue_def trunc_toward_zero_of_int)

subsection \<open>Conflict replay\<close>

lemma unset_handled_first_ids: "c_id ` set (unset_handled_first i h ds) = c_id ` set ds"
  by (induction ds) auto

lemma deleted_commit_gone:
  "c_id c \<notin> c_id ` set (commits (unhandle_handled ((delete db c)\<lparr>next_oid := n\<rparr>) i h))"
  by (auto simp: unhandle_handled_def delete_def unset_handled_first_ids)

lemma rerunCommit_timeout:
  "5 < c_generation c \<Longrightarrow>
   rerunCommit run_ops db c = (Inl (Timeout ''Generation count too large.''), db)"
  by (simp add: rerunCommit_def)

lemma rerunCommit_replay:
  "c_generation c \<le> 5 \<Longrightarrow>
   rerunCommit run_ops db c =
     (runCommit (run_ops ((delete db c)\<lparr>next_oid := next_oid db + 2\<rparr>) (next_oid db) (c_user c)
                   (c_operations c))
        (next_oid db) (next_oid db + 1) (c_user c) (c_operations c) (c_interested c)
        (c_generation c + 1),
      (delete db c)\<lparr>next_oid := next_oid db + 2\<rparr>)"
  by (simp add: rerunCommit_def Let_def delete_def)

lemma body_conflict:
  "attempt (ls_db st) c = (RaisedConflict, db1) \<Longrightarrow>
   processCommits_body self attempt run_ops st c =
     (case rerunCommit run_ops db1 c of
        (Inl x, db2) \<Rightarrow> Raise x (st\<lparr>ls_db := unhandle_handled db2 (c_id c) self\<rparr>)
      | (Inr c', db2) \<Rightarrow>
          Next (st\<lparr>ls_db := unhandle_handled db2 (c_id c) self, ls_commit := Some c'\<rparr>))"
  by (simp add: processCommits_body_def Let_def)

text \<open>
  C4: when the attempt to persist a commit raises CommitConflict, a commit whose
  generation is above 5 makes \<open>processCommits\<close> raise the timeout error, with no replay
  (the record is not deleted and no new context is created). Otherwise the old commit
  record is deleted from the commits collection and the same operation list is run
  again, for the same user, in a new commit context with a new id; the commit that the
  loop goes on with carries that same operation list, is handled by the new context
  and has the generation of the old one plus 1. (If the replayed operations end in a
  client error, the loop goes on with an error commit for the same operations, which
  \<open>createCommit\<close> gives generation 0; any other exception of the replay propagates.)
\<close>

theorem C4_conflict_replay:
  assumes "attempt (ls_db st) c = (RaisedConflict, db1)"
  shows "(5 < c_generation c \<longrightarrow>
            processCommits_body self attempt run_ops st c =
              Raise (Timeout ''Generation count too large.'')
                    (st\<lparr>ls_db := unhandle_handled db1 (c_id c) self\<rparr>))
       \<and> (c_generation c \<le> 5 \<longrightarrow>
            (let ctx_id = next_oid db1;
                 db2 = (delete db1 c)\<lparr>next_oid := next_oid db1 + 2\<rparr>;
                 replayed = run_ops db2 ctx_id (c_user c) (c_operations c);
                 st' = st\<lparr>ls_db := unhandle_handled db2 (c_id c) self\<rparr>
             in c_id c \<notin> c_id ` set (commits (ls_db st'))
              \<and> (\<forall>results staged. replayed = OpsOk results staged \<longrightarrow>
                    (\<exists>c'. processCommits_body self attempt run_ops st c =
                             Next (st'\<lparr>ls_commit := Some c'\<rparr>)
                        \<and> c_operations c' = c_operations c
                        \<and> c_generation c' = c_generation c + 1
                        \<and> c_handled_by c' = Some ctx_id
                        \<and> c_id c' = ctx_id + 1
                        \<and> c_user c' = c_user c
                        \<and> c_interested c' = c_interested c
                        \<and> c_results c' = results
                        \<and> c_staged c' = Some staged
                        \<and> c_error c' = None))
              \<and> (\<forall>e. replayed = OpsClientError e \<longrightarrow>
                    (\<exists>c'. processCommits_body self attempt run_ops st c =
                             Next (st'\<lparr>ls_commit := Some c'\<rparr>)
                        \<and> c_operations c' = c_operations c
                        \<and> c_error c' = Some (ClientErr e)
                        \<and> c_generation c' = 0))
              \<and> (\<forall>x. replayed = OpsRaised x \<longrightarrow>
                    processCommits_body self attempt run_ops st c = Raise (OtherException x) st')))"
proof (intro conjI impI)
  assume "5 < c_generation c"
  then show "processCommits_body self attempt run_ops st c =
      Raise (Timeout ''Generation count too large.'')
            (st\<lparr>ls_db := unhandle_handled db1 (c_id c) self\<rparr>)"
    using body_conflict [where attempt = attempt and st = st and c = c and self = self
        and run_ops = run_ops, OF assms]
    by (simp add: rerunCommit_timeout)
next
  assume g: "c_generation c \<le> 5"
  note b = body_conflict [where attempt = attempt and st = st and c = c and self = self
      and run_ops = run_ops, OF assms, unfolded rerunCommit_replay [OF g]]
  show "let ctx_id = next_oid db1;
            db2 = (delete db1 c)\<lparr>next_oid := next_oid db1 + 2\<rparr>;
            replayed = run_ops db2 ctx_id (c_user c) (c_operations c);
            st' = st\<lparr>ls_db := unhandle_handled db2 (c_id c) self\<rparr>
        in c_id c \<notin> c_id ` set (commits (ls_db st'))
         \<and> (\<forall>results staged. replayed = OpsOk results staged \<longrightarrow>
               (\<exists>c'. processCommits_body self attempt run_ops st c =
                        Next (st'\<lparr>ls_commit := Some c'\<rparr>)
                   \<and> c_operations c' = c_operations c
                   \<and> c_generation c' = c_generation c + 1
                   \<and> c_handled_by c' = Some ctx_id
                   \<and> c_id c' = ctx_id + 1
                   \<and> c_user c' = c_user c
                   \<and> c_interested c' = c_interested c
                   \<and> c_results c' = results
                   \<and> c_staged c' = Some staged
                   \<and> c_error c' = None))
         \<and> (\<forall>e. replayed = OpsClientError e \<longrightarrow>
               (\<exists>c'. processCommits_body self attempt run_ops st c =
                        Next (st'\<lparr>ls_commit := Some c'\<rparr>)
                   \<and> c_operations c' = c_operations c
                   \<and> c_error c' = Some (ClientErr e)
                   \<and> c_generation c' = 0))
         \<and> (\<forall>x. replayed = OpsRaised x \<longrightarrow>
               processCommits_body self attempt run_ops st c = Raise (OtherException x) st')"
    unfolding Let_def
  proof (intro conjI allI impI)
    show "c_id c \<notin> c_id ` set (commits (ls_db (st\<lparr>ls_db := unhandle_handled
              ((delete db1 c)\<lparr>next_oid := next_oid db1 + 2\<rparr>) (c_id c) self\<rparr>)))"
      using deleted_commit_gone [where c = c and db = db1 and n = "next_oid db1 + 2"
          and i = "c_id c" and h = self] by simp
  next
    fix results staged
    assume "run_ops ((delete db1 c)\<lparr>next_oid := next_oid db1 + 2\<rparr>) (next_oid db1) (c_user c)
              (c_operations c) = OpsOk results staged"
    then show "\<exists>c'. processCommits_body self attempt run_ops st c =
          Next (st\<lparr>ls_db := unhandle_handled ((delete db1 c)\<lparr>next_oid := next_oid db1 + 2\<rparr>)
                           (c_id c) self\<rparr>\<lparr>ls_commit := Some c'\<rparr>)
        \<and> c_operations c' = c_operations c
        \<and> c_generation c' = c_generation c + 1
        \<and> c_handled_by c' = Some (next_oid db1)
        \<and> c_id c' = next_oid db1 + 1
        \<and> c_user c' = c_user c
        \<and> c_interested c' = c_interested c
        \<and> c_results c' = results
        \<and> c_staged c' = Some staged
        \<and> c_error c' = None"
      using b
      by (intro exI [of _ "createCommit (next_oid db1) (next_oid db1 + 1) (c_user c)
            (c_operations c) results (Some staged) None (c_interested c) (c_generation c + 1)"])
         (simp add: runCommit_def createCommit_def)
  next
    fix e
    assume "run_ops ((delete db1 c)\<lparr>next_oid := next_oid db1 + 2\<rparr>) (next_oid db1) (c_user c)
              (c_operations c) = OpsClientError e"
    then show "\<exists>c'. processCommits_body self attempt run_ops st c =
          Next (st\<lparr>ls_db := unhandle_handled ((delete db1 c)\<lparr>next_oid := next_oid db1 + 2\<rparr>)
                           (c_id c) self\<rparr>\<lparr>ls_commit := Some c'\<rparr>)
        \<and> c_operations c' = c_operations c
        \<and> c_error c' = Some (ClientErr e)
        \<and> c_generation c' = 0"
      using b
      by (intro exI [of _ "createCommit (next_oid db1) (next_oid db1 + 1) (c_user c)
            (c_operations c) [] None (Some e) (c_interested c) 0"])
         (simp add: runCommit_def createCommit_def)
  next
    fix x
    assume "run_ops ((delete db1 c)\<lparr>next_oid := next_oid db1 + 2\<rparr>) (next_oid db1) (c_user c)
              (c_operations c) = OpsRaised x"
    then show "processCommits_body self attempt run_ops st c =
        Raise (OtherException x)
          (st\<lparr>ls_db := unhandle_handled ((delete db1 c)\<lparr>next_oid := next_oid db1 + 2\<rparr>)
                          (c_id c) self\<rparr>)"
      using b by (simp add: runCommit_def)
  qed
qed

theorem C4_conflict_replay_witness:
  "\<exists>c'. processCommits_body 3 (\<lambda>db c. (RaisedConflict, db))
      (\<lambda>db ctx_id user ops. OpsOk [] () :: (unit, unit, unit, unit) ops_outcome)
      \<lparr>ls_db = \<lparr>commits = [createCommit 1 2 None [7 :: nat] [] None None None 0],
                tois = (), next_oid = 10\<rparr>,
       ls_commit = Some (createCommit 1 2 None [7] [] None None None 0),
       ls_successful = [], ls_locked = (\<lambda>i. 0)\<rparr>
      (createCommit 1 2 None [7] [] None None None 0)
   = Next \<lparr>ls_db = \<lparr>commits = [], tois = (), next_oid = 12\<rparr>,
           ls_commit = Some c', ls_successful = [], ls_locked = (\<lambda>i. 0)\<rparr>
   \<and> c_operations c' = [7] \<and> c_generation c' = 1 \<and> c_handled_by c' = Some 10 \<and> c_id c' = 11"
proof -
  let ?c = "createCommit 1 2 None [7 :: nat] [] None None None 0 :: (nat, unit, unit, unit) commit"
  let ?db = "\<lparr>commits = [?c], tois = (), next_oid = 10\<rparr>"
  let ?st = "\<lparr>ls_db = ?db, ls_commit = Some ?c, ls_successful = [], ls_locked = (\<lambda>i. 0)\<rparr>"
  let ?attempt = "\<lambda>(db :: (nat, unit, unit, unit, unit) database) (c :: (nat, unit, unit, unit) commit).
                    (RaisedConflict :: unit attempt_outcome, db)"
  let ?run = "\<lambda>(db :: (nat, unit, unit, unit, unit) database) (ctx_id :: oid) (user :: oid option)
                 (ops :: nat list). OpsOk [] () :: (unit, unit, unit, unit) ops_outcome"
  have h: "?attempt (ls_db ?st) ?c = (RaisedConflict, ?db)" by simp
  have g: "c_generation ?c \<le> 5" by (simp add: createCommit_def)
  have o: "c_operations ?c = [7]" and i: "c_id ?c = 2" by (simp_all add: createCommit_def)
  have d: "unhandle_handled ((delete ?db ?c)\<lparr>next_oid := next_oid ?db + 2\<rparr>) (c_id ?c) 3 =
      \<lparr>commits = [], tois = (), next_oid = 12\<rparr>"
    by (simp add: unhandle_handled_def delete_def)
  from C4_conflict_replay [where attempt = ?attempt and st = ?st and c = ?c and ?db1.0 = ?db
      and self = 3 and run_ops = ?run, OF h] g
  have "\<exists>c'. processCommits_body 3 ?attempt ?run ?st ?c =
       Next (?st\<lparr>ls_db := unhandle_handled ((delete ?db ?c)\<lparr>next_oid := next_oid ?db + 2\<rparr>)
                          (c_id ?c) 3\<rparr>\<lparr>ls_commit := Some c'\<rparr>)
     \<and> c_operations c' = c_operations ?c
     \<and> c_generation c' = c_generation ?c + 1
     \<and> c_handled_by c' = Some (next_oid ?db)
     \<and> c_id c' = next_oid ?db + 1"
    unfolding Let_def by blast
  then show ?thesis
    unfolding d o by (simp add: createCommit_def)
qed

lemma body_conflict_replayed:
  assumes "attempt (ls_db st) c = (RaisedConflict, db1)" and "c_generation c \<le> 5"
    and "run_ops ((delete db1 c)\<lparr>next_oid := next_oid db1 + 2\<rparr>) (next_oid db1) (c_user c)
           (c_operations c) = OpsOk results staged"
  shows "processCommits_body self attempt run_ops st c =
     Next (st\<lparr>ls_db := unhandle_handled ((delete db1 c)\<lparr>next_oid := next_oid db1 + 2\<rparr>) (c_id c) self,
              ls_commit := Some (createCommit (next_oid db1) (next_oid db1 + 1) (c_user c)
                  (c_operations c) results (Some staged) None (c_interested c)
                  (c_generation c + 1))\<rparr>)"
  using body_conflict [where attempt = attempt and st = st and c = c and self = self
      and run_ops = run_ops, OF assms(1), unfolded rerunCommit_replay [OF assms(2)]] assms(3)
  by (simp add: runCommit_def)

lemma body_conflict_timeout:
  assumes "attempt (ls_db st) c = (RaisedConflict, db1)" and "5 < c_generation c"
  shows "processCommits_body self attempt run_ops st c =
     Raise (Timeout ''Generation count too large.'')
           (st\<lparr>ls_db := unhandle_handled db1 (c_id c) self\<rparr>)"
  using body_conflict [where attempt = attempt and st = st and c = c and self = self
      and run_ops = run_ops, OF assms(1)] assms(2)
  by (simp add: rerunCommit_timeout)

text \<open>
  The cap at work: if every attempt to persist conflicts and every replay of the
  operations succeeds, a commit that starts with generation \<open>g \<le> 6\<close> is replayed
  \<open>6 - g\<close> times (two new ObjectIds each time) and then \<open>processCommits\<close> raises the
  timeout error. A commit of generation 0 is thus attempted seven times, the last time
  with generation 6.
\<close>

lemma conflicts_until_timeout:
  assumes att: "\<And>db c. attempt db c = (RaisedConflict, db)"
    and ops: "\<And>db i u os. \<exists>r s. run_ops db i u os = OpsOk r s"
  shows "ls_commit st = Some c \<Longrightarrow> c_generation c + k = 6 \<Longrightarrow>
         \<exists>st'. processCommits_loop (Suc k + n) self attempt run_ops st =
                  Some (Inl (Timeout ''Generation count too large.'', st'))
              \<and> next_oid (ls_db st') = next_oid (ls_db st) + 2 * k"
proof (induction k arbitrary: st c)
  case 0
  then have "5 < c_generation c" by simp
  with att have "processCommits_body self attempt run_ops st c =
      Raise (Timeout ''Generation count too large.'')
            (st\<lparr>ls_db := unhandle_handled (ls_db st) (c_id c) self\<rparr>)"
    by (intro body_conflict_timeout) simp_all
  with 0 show ?case by (simp add: unhandle_handled_def)
next
  case (Suc k)
  let ?db = "ls_db st"
  from Suc.prems have g: "c_generation c \<le> 5" by simp
  obtain r s where o: "run_ops ((delete ?db c)\<lparr>next_oid := next_oid ?db + 2\<rparr>) (next_oid ?db)
      (c_user c) (c_operations c) = OpsOk r s"
    using ops by blast
  let ?c' = "createCommit (next_oid ?db) (next_oid ?db + 1) (c_user c) (c_operations c) r
      (Some s) None (c_interested c) (c_generation c + 1)"
  let ?st' = "st\<lparr>ls_db := unhandle_handled ((delete ?db c)\<lparr>next_oid := next_oid ?db + 2\<rparr>) (c_id c) self,
      ls_commit := Some ?c'\<rparr>"
  have b: "processCommits_body self attempt run_ops st c = Next ?st'"
    using att g o by (intro body_conflict_replayed) simp_all
  have "ls_commit ?st' = Some ?c'" by simp
  moreover have "c_generation ?c' + k = 6"
    using Suc.prems by (simp add: createCommit_def)
  ultimately obtain st'' where
    l: "processCommits_loop (Suc k + n) self attempt run_ops ?st' =
          Some (Inl (Timeout ''Generation count too large.'', st''))"
    and n: "next_oid (ls_db st'') = next_oid (ls_db ?st') + 2 * k"
    using Suc.IH by blast
  have "next_oid (ls_db ?st') = next_oid ?db + 2"
    by (simp add: unhandle_handled_def delete_def)
  with n have "next_oid (ls_db st'') = next_oid ?db + 2 * Suc k" by simp
  moreover have "processCommits_loop (Suc (Suc k) + n) self attempt run_ops st =
      Some (Inl (Timeout ''Generation count too large.'', st''))"
    using Suc.prems(1) b l by simp
  ultimately show ?case by blast
qed

subsection \<open>Read-only and computed attributes in \<open>CreateToi\<close>\<close>

text \<open>
  A non-empty value supplied for a read-only or computed attribute is refused when the
  first loop reaches it.
\<close>

lemma supplied_loop_nonempty_readonly:
  assumes "dict_get attributes attrName = Some attr"
    and "a_computed attr \<or> getprop_pre attr ReadOnly"
    and "dict_truthy attrData (a_name attr)"
  shows "supplied_loop attributes ((attrName, val) # items) attrData =
           Inl (cRuntimeError (''Tried to access the read only attribute '' @ a_name attr))"
  using assms by simp

text \<open>An empty value supplied for such an attribute is deleted and the loop goes on.\<close>

lemma supplied_loop_empty_readonly:
  assumes "dict_get attributes attrName = Some attr"
    and "a_computed attr \<or> getprop_pre attr ReadOnly"
    and "\<not> dict_truthy attrData (a_name attr)"
  shows "supplied_loop attributes ((attrName, val) # items) attrData =
           supplied_loop attributes items (dict_del (a_name attr) attrData)"
  using assms by simp

text \<open>
  C6: a class with the attributes \<open>name\<close> and \<open>readonly\<close> (the latter with the ReadOnly
  property, as in the test module \<open>testcommit\<close>). \<open>CreateToi\<close> with the empty list
  supplied for \<open>readonly\<close> is not rejected: the supplied item is dropped and the
  operation goes on with the defaults, exactly as if nothing had been supplied. With
  \<open>['foo']\<close> supplied it is rejected, with a cRuntimeError.
\<close>

theorem C6_create_readonly_empty_accepted:
  "CreateToi_attrData
      [(''name'', \<lparr>a_name = ''name'', a_computed = False, a_preProperties = [],
                   a_default = [], a_coerceValueList = Inr, a_prevalidate = Inr\<rparr>),
       (''readonly'', \<lparr>a_name = ''readonly'', a_computed = False, a_preProperties = [ReadOnly],
                       a_default = [], a_coerceValueList = Inr, a_prevalidate = Inr\<rparr>)]
      [(''readonly'', [] :: string list)]
    = Inr [(''name'', []), (''readonly'', [])]
   \<and> CreateToi_attrData
      [(''name'', \<lparr>a_name = ''name'', a_computed = False, a_preProperties = [],
                   a_default = [], a_coerceValueList = Inr, a_prevalidate = Inr\<rparr>),
       (''readonly'', \<lparr>a_name = ''readonly'', a_computed = False, a_preProperties = [ReadOnly],
                       a_default = [], a_coerceValueList = Inr, a_prevalidate = Inr\<rparr>)]
      []
    = Inr [(''name'', []), (''readonly'', [])]
   \<and> CreateToi_attrData
      [(''name'', \<lparr>a_name = ''name'', a_computed = False, a_preProperties = [],
                   a_default = [], a_coerceValueList = Inr, a_prevalidate = Inr\<rparr>),
       (''readonly'', \<lparr>a_name = ''readonly'', a_computed = False, a_preProperties = [ReadOnly],
                       a_default = [], a_coerceValueList = Inr, a_prevalidate = Inr\<rparr>)]
      [(''readonly'', [''foo''])]
    = Inl (cRuntimeError ''Tried to access the read only attribute readonly'')"
  by (simp add: CreateToi_attrData_def dict_get_def dict_truthy_def dict_del_def
      getprop_pre_def stored_or_default_def)

subsection \<open>The diff-opcode law\<close>

lemma py_bound_nat [simp]: "n \<le> m \<Longrightarrow> py_bound (int n) m = n"
  by (simp add: py_bound_def)

lemma py_slice_nat: "j1 \<le> j2 \<Longrightarrow> j2 \<le> length xs \<Longrightarrow>
    py_slice xs (int j1) (int j2) = take (j2 - j1) (drop j1 xs)"
  by (simp add: py_slice_def Let_def max_def)

lemma py_slice_assign_nat: "lo \<le> hi \<Longrightarrow> hi \<le> length xs \<Longrightarrow>
    py_slice_assign xs (int lo) (int hi) data = take lo xs @ data @ drop hi xs"
  by (simp add: py_slice_assign_def Let_def max_def)

text \<open>
  One changed region: with the result so far equal to \<open>b[:j] + a[i:]\<close> and the offset
  \<open>j - i\<close>, replacing \<open>a[i:ai]\<close> by \<open>b[j:bj]\<close> gives \<open>b[:bj] + a[ai:]\<close>.
\<close>

lemma replace_region:
  assumes "i \<le> ai" "ai \<le> length a" "j \<le> bj" "bj \<le> length b"
  shows "py_slice_assign (take j b @ drop i a) (int i + (int j - int i)) (int ai + (int j - int i))
           (py_slice b (int j) (int bj)) = take bj b @ drop ai a"
proof -
  have lo: "int i + (int j - int i) = int j" by simp
  have hi: "int ai + (int j - int i) = int (j + (ai - i))" using assms(1) by simp
  have len: "j + (ai - i) \<le> length (take j b @ drop i a)" using assms by simp
  let ?D = "py_slice b (int j) (int bj)"
  have s: "?D = take (bj - j) (drop j b)"
    using assms by (simp add: py_slice_nat)
  have "py_slice_assign (take j b @ drop i a) (int j) (int (j + (ai - i))) ?D
      = take j (take j b @ drop i a) @ ?D @ drop (j + (ai - i)) (take j b @ drop i a)"
    using len by (intro py_slice_assign_nat) simp_all
  also have "\<dots> = take j b @ ?D @ drop ai a" using assms by simp
  also have "\<dots> = take bj b @ drop ai a"
    unfolding s using assms(3) by (metis append.assoc le_add_diff_inverse take_add)
  finally show ?thesis unfolding lo hi .
qed

lemma skip_equal:
  assumes "take n (drop ai a) = take n (drop bj b)" "ai + n \<le> length a" "bj + n \<le> length b"
  shows "take (bj + n) b @ drop (ai + n) a = take bj b @ drop ai a"
proof -
  have "take (bj + n) b = take bj b @ take n (drop bj b)" by (simp add: take_add)
  moreover have "drop ai a = take n (drop ai a) @ drop (ai + n) a"
    by (metis append_take_drop_id drop_drop add.commute)
  ultimately show ?thesis using assms(1) by simp
qed

lemma py_slice_length: "j \<le> bj \<Longrightarrow> bj \<le> length b \<Longrightarrow> length (py_slice b (int j) (int bj)) = bj - j"
  by (simp add: py_slice_nat)

text \<open>
  One matching block. Before it the result is \<open>b[:j] + a[i:]\<close> with offset \<open>j - i\<close>;
  the opcodes of the block (a changed region, if there is one, and the equal run, which
  \<open>diff_opcodes\<close> leaves out) bring it to \<open>b[:bj+n] + a[ai+n:]\<close> with offset
  \<open>(bj+n) - (ai+n)\<close>.
\<close>

lemma block_step:
  assumes "i \<le> ai" "ai + n \<le> length a" "j \<le> bj" "bj + n \<le> length b"
    and eq: "take n (drop ai a) = take n (drop bj b)"
  shows "apply_opcodes_loop (take j b @ drop i a) (int j - int i)
           (diff_opcodes_loop b (get_opcodes_loop i j ((ai, bj, n) # blocks)))
       = apply_opcodes_loop (take (bj + n) b @ drop (ai + n) a) (int (bj + n) - int (ai + n))
           (diff_opcodes_loop b (get_opcodes_loop (ai + n) (bj + n) blocks))"
proof -
  have la: "ai \<le> length a" and lb: "bj \<le> length b" using assms by simp_all
  have sk: "take (bj + n) b @ drop (ai + n) a = take bj b @ drop ai a"
    using eq assms(2,4) by (rule skip_equal)
  have off: "int (bj + n) - int (ai + n) = int bj - int ai" by simp
  show ?thesis
  proof (cases "i < ai \<or> j < bj")
    case True
    let ?D = "py_slice b (int j) (int bj)"
    have r: "py_slice_assign (take j b @ drop i a) (int i + (int j - int i))
               (int ai + (int j - int i)) ?D = take bj b @ drop ai a"
      using assms(1) la assms(3) lb by (rule replace_region)
    have o: "int j - int i + (int (length ?D) - (int ai - int i)) = int bj - int ai"
      using assms(3) lb by (simp add: py_slice_length)
    have r': "py_slice_assign (take j b @ drop i a) (int j) (int ai + (int j - int i)) ?D
        = take bj b @ drop ai a"
      using r by simp
    from True show ?thesis
      by (auto simp: Let_def r' o sk off)
  next
    case False
    with assms(1,3) have "i = ai" "j = bj" by simp_all
    then show ?thesis
      by (simp add: Let_def sk)
  qed
qed

lemma apply_diff_from:
  "matching_blocks_from a b i j blocks \<Longrightarrow>
   apply_opcodes_loop (take j b @ drop i a) (int j - int i)
     (diff_opcodes_loop b (get_opcodes_loop i j blocks)) = b"
proof (induction a b i j blocks rule: matching_blocks_from.induct)
  case (1 a b i j)
  then show ?case by simp
next
  case (2 a b i j ai bj n)
  then have "apply_opcodes_loop (take j b @ drop i a) (int j - int i)
           (diff_opcodes_loop b (get_opcodes_loop i j [(ai, bj, n)]))
       = apply_opcodes_loop (take (bj + n) b @ drop (ai + n) a) (int (bj + n) - int (ai + n))
           (diff_opcodes_loop b (get_opcodes_loop (ai + n) (bj + n) []))"
    by (intro block_step) simp_all
  with 2 show ?case by simp
next
  case (3 a b i j ai bj n blk blocks)
  then have "apply_opcodes_loop (take j b @ drop i a) (int j - int i)
           (diff_opcodes_loop b (get_opcodes_loop i j ((ai, bj, n) # blk # blocks)))
       = apply_opcodes_loop (take (bj + n) b @ drop (ai + n) a) (int (bj + n) - int (ai + n))
           (diff_opcodes_loop b (get_opcodes_loop (ai + n) (bj + n) (blk # blocks)))"
    by (intro block_step) simp_all
  with 3 show ?case by simp
qed

text \<open>
  C2: for all sequences \<open>old\<close> and \<open>new\<close>, whatever matching blocks the sequence matcher
  finds for them (any list of blocks that keeps difflib's promises), applying the
  opcodes of \<open>diff_opcodes(old, new)\<close> to \<open>old\<close> with \<open>apply_opcodes\<close> gives \<open>new\<close>.
\<close>

theorem C2_apply_diff:
  assumes "matching_blocks old new blocks"
  shows "apply_opcodes old (diff_opcodes blocks old new) = new"
  using apply_diff_from [of old new 0 0 blocks] assms
  by (simp add: apply_opcodes_def diff_opcodes_def get_opcodes_def matching_blocks_def)

theorem C2_apply_diff_witness:
  "matching_blocks ''abcde'' ''axcdyz'' [(0, 0, 1), (2, 2, 2), (5, 6, 0)]
   \<and> diff_opcodes [(0, 0, 1), (2, 2, 2), (5, 6, 0)] ''abcde'' ''axcdyz''
       = [(1, 2, ''x''), (4, 5, ''yz'')]
   \<and> apply_opcodes ''abcde'' [(1, 2, ''x''), (4, 5, ''yz'')] = ''axcdyz''"
proof -
  have m: "matching_blocks ''abcde'' ''axcdyz'' [(0, 0, 1), (2, 2, 2), (5, 6, 0)]"
    by (simp add: matching_blocks_def)
  have d: "diff_opcodes [(0, 0, 1), (2, 2, 2), (5, 6, 0)] ''abcde'' ''axcdyz''
       = [(1, 2, ''x''), (4, 5, ''yz'')]"
    by (simp add: diff_opcodes_def get_opcodes_def Let_def py_slice_def py_bound_def)
  from C2_apply_diff [OF m] d m show ?thesis by simp
qed

text \<open>
  The promise can always be kept: the dummy block alone is a list of matching blocks
  for any two sequences (the diff is then one opcode that replaces everything).
\<close>

lemma matching_blocks_exist: "matching_blocks a b [(length a, length b, 0)]"
  by (simp add: matching_blocks_def)

subsection \<open>Lock discipline\<close>

lemma unlockTois_clears: "Some self \<notin> d_handled_by ` set (unlockTois self docs)"
  by (induction docs) (auto simp: unlockTois_def)

text \<open>The unlock step touches nothing but the locks of the context itself.\<close>

lemma unlockTois_others:
  "map (\<lambda>d. (d_id d, d_toc d, d_attrs d)) (unlockTois self docs)
     = map (\<lambda>d. (d_id d, d_toc d, d_attrs d)) docs
   \<and> (\<forall>d \<in> set docs. d_handled_by d \<noteq> Some self \<longrightarrow> d \<in> set (unlockTois self docs))"
  by (induction docs) (auto simp: unlockTois_def)

text \<open>
  C3: when an attempt to persist a commit is over, no document of the instance
  collection has \<open>_handled_by\<close> equal to the id of the committing context. This holds
  for every commit, every database and every behaviour of the environment, so whether
  the attempt succeeded or raised CommitConflict, ToisLocked, a bulk-write error or
  anything else: the unlock step is the last thing done on every path.
\<close>

theorem C3_lock_discipline:
  "Some self \<notin> d_handled_by ` set (tois (snd (commit self env db c)))"
proof (cases "commit_try self env db c")
  case (Pair raised db1)
  then have "tois (snd (commit self env db c)) = unlockTois self (tois db1)"
    by (simp add: commit_def)
  then show ?thesis by (simp only: unlockTois_clears not_False_eq_True)
qed

text \<open>
  The locks are really taken in between. A commit that changes instance 1 and whose
  bulk write fails: when the body of the \<open>try\<close> is left, the document is locked by the
  context (7), and after the \<open>finally\<close> clause it is not.
\<close>

lemma lock_held_until_finally:
  "commit_try 7
     \<lparr>env_known_toc = (\<lambda>t. True), env_default_of = (\<lambda>t a. []), env_bulk_ok = [False],
      env_blob_fault = False, env_previous_error = False\<rparr>
     \<lparr>commits = [], tois = [\<lparr>d_id = 1, d_handled_by = None, d_toc = ''t.Test'',
                              d_attrs = [(''name'', [''A''])]\<rparr>], next_oid = 20\<rparr>
     (createCommit 7 8 None [] [] (Some \<lparr>s_newTois = [],
         s_changedTois = [\<lparr>dt_toid = 1, dt_toc_fullname = ''t.Test'',
                            dt_diffAttrs = [(''name'', [''C''])],
                            dt_orgAttrs = [(''name'', [''A''])]\<rparr>],
         s_deletedTois = []\<rparr>) None None 0)
   = (Inl (OtherException BulkWriteError),
      \<lparr>commits = [], tois = [\<lparr>d_id = 1, d_handled_by = Some 7, d_toc = ''t.Test'',
                              d_attrs = [(''name'', [''A''])]\<rparr>], next_oid = 20\<rparr>)
   \<and> commit 7
     \<lparr>env_known_toc = (\<lambda>t. True), env_default_of = (\<lambda>t a. []), env_bulk_ok = [False],
      env_blob_fault = False, env_previous_error = False\<rparr>
     \<lparr>commits = [], tois = [\<lparr>d_id = 1, d_handled_by = None, d_toc = ''t.Test'',
                              d_attrs = [(''name'', [''A''])]\<rparr>], next_oid = 20\<rparr>
     (createCommit 7 8 None [] [] (Some \<lparr>s_newTois = [],
         s_changedTois = [\<lparr>dt_toid = 1, dt_toc_fullname = ''t.Test'',
                            dt_diffAttrs = [(''name'', [''C''])],
                            dt_orgAttrs = [(''name'', [''A''])]\<rparr>],
         s_deletedTois = []\<rparr>) None None 0)
   = (Inl (OtherException BulkWriteError),
      \<lparr>commits = [], tois = [\<lparr>d_id = 1, d_handled_by = None, d_toc = ''t.Test'',
                              d_attrs = [(''name'', [''A''])]\<rparr>], next_oid = 20\<rparr>)"
  by (simp add: commit_def commit_try_def createCommit_def staged_of_def lockTois_def
      count_docs_def unlockTois_def diffsOld_def stored_value_def Let_def)

text \<open>
  The two causes of a failed lock: an affected instance that is gone raises
  CommitConflict, one that another context holds raises ToisLocked.
\<close>

lemma lockTois_examples:
  "fst (lockTois 7 [1, 2] [\<lparr>d_id = 1, d_handled_by = None, d_toc = ''t'', d_attrs = []\<rparr>])
     = (Inl CommitConflict :: storage_fault commit_exn + unit)
   \<and> fst (lockTois 7 [1] [\<lparr>d_id = 1, d_handled_by = Some 9, d_toc = ''t'', d_attrs = []\<rparr>])
     = Inl ToisLocked
   \<and> lockTois 7 [1] [\<lparr>d_id = 1, d_handled_by = None, d_toc = ''t'', d_attrs = []\<rparr>]
     = (Inr (), [\<lparr>d_id = 1, d_handled_by = Some 7, d_toc = ''t'', d_attrs = []\<rparr>])"
  by (simp add: lockTois_def count_docs_def Let_def)

subsection \<open>Glob patterns\<close>

text \<open>The patterns of the tests in \<open>test_query.py\<close>, as the model compiles them.\<close>

lemma makeRe_test_patterns:
  "makeRe_pattern ''foo*'' = ''^foo''"
  "makeRe_pattern ''*foo'' = ''foo$''"
  "makeRe_pattern ''*foo*'' = ''foo''"
  "makeRe_pattern ''foo*bar'' = ''^foo.*bar$''"
  "makeRe_pattern ''foo?bar'' = ''^foo.bar$''"
  "makeRe_pattern (''foo'' @ [bs] @ ''*bar'') = ''^foo'' @ [bs] @ ''*bar$''"
  "makeRe_pattern (''foo'' @ [bs] @ ''?bar'') = ''^foo'' @ [bs] @ ''?bar$''"
  "makeRe_pattern (''foo'' @ [bs, bs] @ ''bar'') = ''^foo'' @ [bs, bs] @ ''bar$''"
  "makeRe_pattern (''foo'' @ [bs] @ ''tbar'') = ''^footbar$''"
  by (simp_all add: makeRe_pattern_def re_escape_def re_special_def bs_def nl_def Let_def
      endswith_def startswith_def)

text \<open>What the tests of \<open>test_query.py\<close> search for, in the model.\<close>

lemma makeRe_test_searches:
  "makeRe_search ''foo*'' ''foobar'' = Some True"
  "makeRe_search ''foo*'' ''barfoo'' = Some False"
  "makeRe_search ''*foo'' ''barfoo'' = Some True"
  "makeRe_search ''*foo'' ''foobar'' = Some False"
  "makeRe_search ''foo*bar'' ''foomoobar'' = Some True"
  "makeRe_search ''foo*bar'' ''ofofoomoobar'' = Some False"
  "makeRe_search ''foo?bar'' ''foombar'' = Some True"
  "makeRe_search ''foo?bar'' ''fooxmbar'' = Some False"
  "makeRe_search ''foo?bar'' ''foobar'' = Some False"
  by (simp_all add: makeRe_search_def makeRe_pattern_def re_escape_def re_special_def bs_def
      nl_def Let_def endswith_def startswith_def)

text \<open>
  C9: the glob \<open>a??b\<close>. The second question mark is not turned into a dot: the
  compiled pattern is \<^verbatim>\<open>^a.\?b$\<close>, in which it is an escaped, literal question mark.
  So \<open>a??b\<close> does not match \<open>axyb\<close> (two arbitrary characters between \<open>a\<close> and \<open>b\<close>),
  and it matches \<open>ax?b\<close> only. In the same way the second asterisk of \<open>a**b\<close> stays a
  literal asterisk (\<^verbatim>\<open>^a.*\*b$\<close>), so \<open>a**b\<close> does not match \<open>ab\<close>. The anchors are as
  the claim says.
\<close>

theorem C9_makeRe_consecutive_wildcards:
  "makeRe_pattern ''a??b'' = ''^a.'' @ [bs] @ ''?b$''
   \<and> makeRe_search ''a??b'' ''axyb'' = Some False
   \<and> makeRe_search ''a??b'' ''ax?b'' = Some True
   \<and> makeRe_pattern ''a**b'' = ''^a.*'' @ [bs] @ ''*b$''
   \<and> makeRe_search ''a**b'' ''ab'' = Some False
   \<and> makeRe_search ''a**b'' ''axy*b'' = Some True"
  by (simp add: makeRe_search_def makeRe_pattern_def re_escape_def re_special_def bs_def
      nl_def Let_def endswith_def startswith_def)

end
